theory Spec2Isabelle
  imports
    Main
    "HOL-Library.Word"
    "HOL-Library.AList"
    "HOL-Library.Char_ord"
    "HOL-Library.List_Lexorder"
begin

section \<open>Data model (src/types/chat.ts)\<close>

text \<open>
  A \<open>Uint8Array\<close> is a list of 8-bit words. A JavaScript string is a \<open>string\<close>; the
  strings the engine compares are base58, base64 and hexadecimal text, so one \<open>char\<close> per
  code unit is exact for them. Counters (\<open>sendN\<close>, \<open>recvN\<close>, the wire counter \<open>n\<close>) are
  natural numbers, the values the sender produces.

  An object used as a dictionary from counters to strings (\<open>Record<string, string>\<close> with
  the keys \<open>String(index)\<close>) is an association list from the counter to the value, with
  one entry per key: \<open>Object.keys(o).length\<close> is its length, \<open>o[String(i)] = v\<close> is
  \<open>AList.update\<close>, \<open>delete o[String(i)]\<close> is \<open>AList.delete\<close>, \<open>o[String(i)]\<close> is
  \<open>map_of\<close>.
\<close>

type_synonym bytes = "8 word list"

datatype ChatKind = Dm | Group

record SessionRecord =
  conversationId :: string
  kind :: ChatKind
  peerPubKey :: string
  groupId :: "string option"
  sendCK :: string
  recvCK :: string
  sendN :: nat
  recvN :: nat
  skippedKeys :: "(nat \<times> string) list"

section \<open>Platform primitives\<close>

text \<open>
  The functions the repository takes from the platform and from its dependencies are
  parameters of the model, collected in one record: \<open>globalThis.btoa\<close> and
  \<open>globalThis.atob\<close>, \<open>TextEncoder\<close> and \<open>TextDecoder\<close>, \<open>JSON\<close>, \<open>bs58.decode\<close>,
  viem's \<open>keccak256\<close>, \<open>stringToHex\<close> and \<open>toHex\<close>, SHA-256, HKDF-SHA256 and AES-GCM
  with a key and an IV (from WebCrypto or the @noble packages), and tweetnacl's
  \<open>box.before\<close>, \<open>box.open\<close>, \<open>secretbox\<close> and \<open>secretbox.open\<close>. A function that
  throws has a result of type \<open>option\<close> or \<open>error + _\<close>: \<open>atob\<close> throws on text that
  is not base64, \<open>bs58.decode\<close> on text that is not base58, and the tweetnacl functions
  on keys and nonces of the wrong size. The \<open>open\<close> functions of tweetnacl return
  \<open>null\<close>, here \<open>None\<close>, when authentication fails; AES-GCM decryption throws then,
  here \<open>None\<close> too. \<open>JSON.parse\<close> throws on text that is not JSON, here \<open>None\<close>.
  Numbers in JSON values are integers.
\<close>

datatype error =
    InvalidCharacterError
  | InvalidBase58
  | BadKeySize
  | MissingSecretKey
  | OperationError

datatype json =
    JNull
  | JBool bool
  | JNumber int
  | JString string
  | JArray "json list"
  | JObject "(string \<times> json) list"

record platform =
  btoa :: "string \<Rightarrow> string"
  atob :: "string \<Rightarrow> string option"
  textEncoder_encode :: "string \<Rightarrow> bytes"
  textDecoder_decode :: "bytes \<Rightarrow> string"
  JSON_stringify :: "json \<Rightarrow> string"
  JSON_parse :: "string \<Rightarrow> json option"
  bs58_decode :: "string \<Rightarrow> bytes option"
  keccak256 :: "string \<Rightarrow> string"
  stringToHex :: "string \<Rightarrow> string"
  toHex :: "bytes \<Rightarrow> string"
  sha256 :: "bytes \<Rightarrow> bytes"
  aes_gcm_encrypt :: "bytes \<Rightarrow> bytes \<Rightarrow> bytes \<Rightarrow> bytes"
  aes_gcm_decrypt :: "bytes \<Rightarrow> bytes \<Rightarrow> bytes \<Rightarrow> bytes option"
  hkdf_sha256 :: "bytes \<Rightarrow> bytes \<Rightarrow> bytes \<Rightarrow> nat \<Rightarrow> bytes"
  nacl_box_before :: "bytes \<Rightarrow> bytes \<Rightarrow> error + bytes"
  nacl_box_open :: "bytes \<Rightarrow> bytes \<Rightarrow> bytes \<Rightarrow> bytes \<Rightarrow> error + bytes option"
  nacl_secretbox :: "bytes \<Rightarrow> bytes \<Rightarrow> bytes \<Rightarrow> error + bytes"
  nacl_secretbox_open :: "bytes \<Rightarrow> bytes \<Rightarrow> bytes \<Rightarrow> error + bytes option"

section \<open>Encoding utilities (src/lib/encoding.ts)\<close>

definition bytesToBase64 :: "platform \<Rightarrow> bytes \<Rightarrow> string" where
  "bytesToBase64 P bs = btoa P (map (\<lambda>byte. char_of (unat byte)) bs)"

definition base64ToBytes :: "platform \<Rightarrow> string \<Rightarrow> error + bytes" where
  "base64ToBytes P v =
     (case atob P v of
        None \<Rightarrow> Inl InvalidCharacterError
      | Some binary \<Rightarrow> Inr (map (\<lambda>c. of_char c) binary))"

definition stringToBytes :: "platform \<Rightarrow> string \<Rightarrow> bytes" where
  "stringToBytes P v = textEncoder_encode P v"

definition bytesToString :: "platform \<Rightarrow> bytes \<Rightarrow> string" where
  "bytesToString P bs = textDecoder_decode P bs"

definition base58ToBytes :: "platform \<Rightarrow> string \<Rightarrow> error + bytes" where
  "base58ToBytes P v = (case bs58_decode P v of None \<Rightarrow> Inl InvalidBase58 | Some bs \<Rightarrow> Inr bs)"

section \<open>Crypto primitives (src/lib/crypto.ts)\<close>

text \<open>
  \<open>hmacSha256\<close> signs with WebCrypto when it is there and with @noble/hashes otherwise;
  both branches compute HMAC-SHA256 of the data under the key. HMAC is written out as
  RFC 2104 defines it over the hash function, with the block size 64 of SHA-256: a key
  longer than a block is hashed, the key is padded with zero bytes to a block, and the
  tag is the hash of the key block xor \<open>opad\<close> followed by the hash of the key block xor
  \<open>ipad\<close> followed by the message.
\<close>

definition hmacKeyBlock :: "platform \<Rightarrow> bytes \<Rightarrow> bytes" where
  "hmacKeyBlock P keyBytes =
     (let k = (if 64 < length keyBytes then sha256 P keyBytes else keyBytes)
      in k @ replicate (64 - length k) 0)"

definition hmac :: "platform \<Rightarrow> bytes \<Rightarrow> bytes \<Rightarrow> bytes" where
  "hmac P keyBytes d =
     (let block = hmacKeyBlock P keyBytes
      in sha256 P (map (\<lambda>b. xor b 0x5c) block @
                   sha256 P (map (\<lambda>b. xor b 0x36) block @ d)))"

definition hmacSha256 :: "platform \<Rightarrow> bytes \<Rightarrow> bytes \<Rightarrow> bytes" where
  "hmacSha256 P keyBytes d = hmac P keyBytes d"

text \<open>
  PBKDF2 with HMAC-SHA256 as its pseudorandom function, as RFC 8018 defines it: block
  \<open>i\<close> of the derived key is the xor of \<open>c\<close> iterated tags \<open>U\<^sub>1 = PRF(salt || INT(i))\<close>,
  \<open>U\<^sub>j = PRF(U\<^sub>j\<^sub>-\<^sub>1)\<close>, where the password is the key of the pseudorandom function.
\<close>

definition int32be :: "nat \<Rightarrow> bytes" where
  "int32be i = [of_nat (i div 2 ^ 24), of_nat (i div 2 ^ 16), of_nat (i div 2 ^ 8), of_nat i]"

fun pbkdf2_iter :: "(bytes \<Rightarrow> bytes) \<Rightarrow> nat \<Rightarrow> bytes \<Rightarrow> bytes \<Rightarrow> bytes" where
  "pbkdf2_iter prf 0 u acc = acc"
| "pbkdf2_iter prf (Suc n) u acc =
     (let u' = prf u in pbkdf2_iter prf n u' (map2 xor acc u'))"

definition pbkdf2_block :: "(bytes \<Rightarrow> bytes) \<Rightarrow> bytes \<Rightarrow> nat \<Rightarrow> nat \<Rightarrow> bytes" where
  "pbkdf2_block prf salt c i =
     (let u1 = prf (salt @ int32be i) in pbkdf2_iter prf (c - 1) u1 u1)"

definition pbkdf2 :: "platform \<Rightarrow> bytes \<Rightarrow> bytes \<Rightarrow> nat \<Rightarrow> nat \<Rightarrow> bytes" where
  "pbkdf2 P password salt c dkLen =
     (let prf = hmac P password;
          l = (dkLen + 31) div 32
      in take dkLen (concat (map (pbkdf2_block prf salt c) [1..<l + 1])))"

definition AES_KEY_LENGTH :: nat where
  "AES_KEY_LENGTH = 256"

definition PBKDF2_ITERATIONS :: nat where
  "PBKDF2_ITERATIONS = 120000"

definition deriveAesKeyBytes :: "platform \<Rightarrow> string \<Rightarrow> bytes \<Rightarrow> bytes" where
  "deriveAesKeyBytes P passphrase salt =
     pbkdf2 P (stringToBytes P passphrase) salt PBKDF2_ITERATIONS (AES_KEY_LENGTH div 8)"

text \<open>
  \<open>encryptWithPassphrase\<close> and \<open>decryptWithPassphrase\<close>. The salt and the IV that
  \<open>randomBytes\<close> draws are arguments. With WebCrypto and without it the functions derive
  the key with PBKDF2 and run AES-GCM under it; a failed decryption throws, in both.
\<close>

record EncryptedPayload =
  enc_ciphertext :: string
  enc_iv :: string
  enc_salt :: string

definition encryptWithPassphrase ::
  "platform \<Rightarrow> bytes \<Rightarrow> bytes \<Rightarrow> bytes \<Rightarrow> string \<Rightarrow> EncryptedPayload" where
  "encryptWithPassphrase P salt iv d passphrase =
     (let keyBytes = deriveAesKeyBytes P passphrase salt;
          ciphertext = aes_gcm_encrypt P keyBytes iv d
      in \<lparr>enc_ciphertext = bytesToBase64 P ciphertext,
          enc_iv = bytesToBase64 P iv,
          enc_salt = bytesToBase64 P salt\<rparr>)"

definition decryptWithPassphrase ::
  "platform \<Rightarrow> EncryptedPayload \<Rightarrow> string \<Rightarrow> error + bytes" where
  "decryptWithPassphrase P payload passphrase =
     (case base64ToBytes P (enc_salt payload) of
        Inl e \<Rightarrow> Inl e
      | Inr salt \<Rightarrow>
          (case base64ToBytes P (enc_iv payload) of
             Inl e \<Rightarrow> Inl e
           | Inr iv \<Rightarrow>
               (case base64ToBytes P (enc_ciphertext payload) of
                  Inl e \<Rightarrow> Inl e
                | Inr ciphertext \<Rightarrow>
                    (let keyBytes = deriveAesKeyBytes P passphrase salt
                     in case aes_gcm_decrypt P keyBytes iv ciphertext of
                          None \<Rightarrow> Inl OperationError
                        | Some plaintext \<Rightarrow> Inr plaintext))))"

definition hkdf :: "platform \<Rightarrow> bytes \<Rightarrow> bytes \<Rightarrow> bytes \<Rightarrow> nat \<Rightarrow> bytes" where
  "hkdf P ikm salt info len = hkdf_sha256 P ikm salt info len"

section \<open>Topic derivation (src/lib/topics.ts)\<close>

text \<open>
  \<open>Array.prototype.sort\<close> without a comparator orders strings by their code units,
  a shorter string before its extensions: the lexicographic order of \<open>string\<close>.
  \<open>join\<close> puts the separator between the elements.
\<close>

definition stripHexPrefix :: "string \<Rightarrow> string" where
  "stripHexPrefix v = (if take 2 v = ''0x'' then drop 2 v else v)"

fun join :: "string \<Rightarrow> string list \<Rightarrow> string" where
  "join sep [] = []"
| "join sep [x] = x"
| "join sep (x # y # ys) = x @ sep @ join sep (y # ys)"

definition inboxTopic :: "platform \<Rightarrow> bytes \<Rightarrow> string" where
  "inboxTopic P publicKey =
     (let hash = stripHexPrefix (keccak256 P (toHex P publicKey))
      in ''/app/1/inbox/'' @ hash)"

definition conversationIdFromPubKeys :: "platform \<Rightarrow> string \<Rightarrow> string \<Rightarrow> string" where
  "conversationIdFromPubKeys P pubKeyA pubKeyB =
     (let sorted = sort [pubKeyA, pubKeyB]
      in stripHexPrefix (keccak256 P (stringToHex P (join '':'' sorted))))"

definition dmTopic :: "string \<Rightarrow> string" where
  "dmTopic cid = ''/app/1/dm/'' @ cid"

section \<open>Ratchet (src/lib/ratchet.ts)\<close>

definition MSG_LABEL :: "platform \<Rightarrow> bytes" where
  "MSG_LABEL P = stringToBytes P ''msg''"

definition CK_LABEL :: "platform \<Rightarrow> bytes" where
  "CK_LABEL P = stringToBytes P ''ck''"

definition deriveRootKey :: "platform \<Rightarrow> bytes \<Rightarrow> string \<Rightarrow> bytes" where
  "deriveRootKey P sharedSecret cid =
     hkdf P sharedSecret (stringToBytes P cid) (stringToBytes P ''root'') 32"

text \<open>\<open>deriveChainKeys\<close> returns the pair of \<open>sendCK\<close> and \<open>recvCK\<close>.\<close>

definition deriveChainKeys :: "platform \<Rightarrow> bytes \<Rightarrow> string \<Rightarrow> string \<Rightarrow> bytes \<times> bytes" where
  "deriveChainKeys P rootKey myPubKey otherPubKey =
     (let sendCK = hmacSha256 P rootKey (stringToBytes P (''send:'' @ myPubKey));
          recvCK = hmacSha256 P rootKey (stringToBytes P (''send:'' @ otherPubKey))
      in (sendCK, recvCK))"

definition advanceSend :: "platform \<Rightarrow> SessionRecord \<Rightarrow> error + (bytes \<times> SessionRecord)" where
  "advanceSend P session =
     (case base64ToBytes P (sendCK session) of
        Inl e \<Rightarrow> Inl e
      | Inr currentCK \<Rightarrow>
          (let messageKey = hmacSha256 P currentCK (MSG_LABEL P);
               nextCK = hmacSha256 P currentCK (CK_LABEL P)
           in Inr (messageKey,
                   session\<lparr>sendCK := bytesToBase64 P nextCK, sendN := sendN session + 1\<rparr>)))"

definition trimSkipped :: "(nat \<times> string) list \<Rightarrow> nat \<Rightarrow> (nat \<times> string) list" where
  "trimSkipped skipped maxSkipped =
     (if length skipped \<le> maxSkipped then skipped
      else (let sorted = sort_key fst skipped
            in drop (length sorted - maxSkipped) sorted))"

text \<open>
  The \<open>for\<close> loop of \<open>deriveReceiveKey\<close>, from \<open>index\<close> up to \<open>n\<close>, on the loop's
  variables \<open>ck\<close>, \<open>derivedKey\<close> and \<open>skipped\<close>.
\<close>

function deriveLoop ::
  "platform \<Rightarrow> nat \<Rightarrow> nat \<Rightarrow> nat \<Rightarrow> bytes \<Rightarrow> bytes option \<Rightarrow> (nat \<times> string) list
     \<Rightarrow> bytes \<times> bytes option \<times> (nat \<times> string) list" where
  "deriveLoop P maxSkipped n index ck derivedKey skipped =
     (if index \<le> n then
        (let messageKey = hmacSha256 P ck (MSG_LABEL P);
             ck' = hmacSha256 P ck (CK_LABEL P)
         in if index = n then
              deriveLoop P maxSkipped n (index + 1) ck' (Some messageKey) skipped
            else if length skipped < maxSkipped then
              deriveLoop P maxSkipped n (index + 1) ck' derivedKey
                (AList.update index (bytesToBase64 P messageKey) skipped)
            else deriveLoop P maxSkipped n (index + 1) ck' derivedKey skipped)
      else (ck, derivedKey, skipped))"
  by pat_completeness auto
termination
  by (relation "measure (\<lambda>(P, maxSkipped, n, index, ck, derivedKey, skipped). Suc n - index)") auto

declare deriveLoop.simps [simp del]

record ReceiveResult =
  messageKey :: "bytes option"
  nextSession :: SessionRecord
  fromCache :: bool

text \<open>
  \<open>!cached\<close> holds for a missing entry and for the empty string. A throw of
  \<open>base64ToBytes\<close> is the \<open>Inl\<close> result.
\<close>

definition deriveReceiveKey ::
  "platform \<Rightarrow> SessionRecord \<Rightarrow> nat \<Rightarrow> nat \<Rightarrow> error + ReceiveResult" where
  "deriveReceiveKey P session n maxSkipped =
     (let skipped = skippedKeys session in
      if n < recvN session then
        (case map_of skipped n of
           None \<Rightarrow> Inr \<lparr>messageKey = None, nextSession = session, fromCache = False\<rparr>
         | Some cached \<Rightarrow>
             if cached = [] then
               Inr \<lparr>messageKey = None, nextSession = session, fromCache = False\<rparr>
             else
               (case base64ToBytes P cached of
                  Inl e \<Rightarrow> Inl e
                | Inr key \<Rightarrow>
                    Inr \<lparr>messageKey = Some key,
                         nextSession = session\<lparr>skippedKeys := AList.delete n skipped\<rparr>,
                         fromCache = True\<rparr>))
      else
        (case base64ToBytes P (recvCK session) of
           Inl e \<Rightarrow> Inl e
         | Inr ck0 \<Rightarrow>
             (case deriveLoop P maxSkipped n (recvN session) ck0 None skipped of
                (ck, derivedKey, skipped') \<Rightarrow>
                  Inr \<lparr>messageKey = derivedKey,
                       nextSession = session\<lparr>recvCK := bytesToBase64 P ck,
                                              recvN := n + 1,
                                              skippedKeys := trimSkipped skipped' maxSkipped\<rparr>,
                       fromCache = False\<rparr>)))"

text \<open>\<open>MAX_SKIPPED_KEYS\<close> of src/store/chatStore.ts.\<close>

definition MAX_SKIPPED_KEYS :: nat where
  "MAX_SKIPPED_KEYS = 50"

text \<open>
  The session states a holder can reach from \<open>s0\<close>: each step is an \<open>advanceSend\<close> or a
  \<open>deriveReceiveKey\<close> at some counter that returned, followed by keeping the session it
  returned.
\<close>

inductive reachable :: "platform \<Rightarrow> SessionRecord \<Rightarrow> SessionRecord \<Rightarrow> bool"
  for P :: platform and s0 :: SessionRecord where
  reach_init: "reachable P s0 s0"
| reach_send: "reachable P s0 s \<Longrightarrow> advanceSend P s = Inr (k, s') \<Longrightarrow> reachable P s0 s'"
| reach_recv: "reachable P s0 s \<Longrightarrow> deriveReceiveKey P s n MAX_SKIPPED_KEYS = Inr r
                 \<Longrightarrow> reachable P s0 (nextSession r)"

definition cacheInv :: "SessionRecord \<Rightarrow> bool" where
  "cacheInv s \<longleftrightarrow>
     length (skippedKeys s) \<le> 50 \<and> list_all (\<lambda>(i, v). i < recvN s) (skippedKeys s)"

subsection \<open>The chain the ratchet walks, and the scenarios of the specification\<close>

text \<open>
  The \<open>i\<close>-th chain key and message key that both \<open>advanceSend\<close> and the loop of
  \<open>deriveReceiveKey\<close> compute from a starting chain key: each step replaces the chain key
  by its HMAC under the label "ck", and the message key is the HMAC under "msg".
\<close>

definition chainKey :: "platform \<Rightarrow> bytes \<Rightarrow> nat \<Rightarrow> bytes" where
  "chainKey P ck0 i = ((\<lambda>ck. hmacSha256 P ck (CK_LABEL P)) ^^ i) ck0"

definition msgKey :: "platform \<Rightarrow> bytes \<Rightarrow> nat \<Rightarrow> bytes" where
  "msgKey P ck0 i = hmacSha256 P (chainKey P ck0 i) (MSG_LABEL P)"

text \<open>
  What the engine relies on from the platform: \<open>atob\<close> undoes \<open>btoa\<close>, only the empty
  string encodes to the empty string, and a SHA-256 digest has 32 bytes.
\<close>

definition platform_wf :: "platform \<Rightarrow> bool" where
  "platform_wf P \<longleftrightarrow>
     (\<forall>s. atob P (btoa P s) = Some s) \<and>
     (\<forall>s. btoa P s = [] \<longrightarrow> s = []) \<and>
     (\<forall>d. length (sha256 P d) = 32)"

text \<open>
  AES-GCM decryption under the key and IV of the encryption returns the plaintext.
\<close>

definition aead_correct :: "platform \<Rightarrow> bool" where
  "aead_correct P \<longleftrightarrow>
     (\<forall>key iv d. aes_gcm_decrypt P key iv (aes_gcm_encrypt P key iv d) = Some d)"

text \<open>The sender derives \<open>k\<close> send keys in a row, keeping the session each time.\<close>

fun sendAll :: "platform \<Rightarrow> SessionRecord \<Rightarrow> nat \<Rightarrow> error + (bytes list \<times> SessionRecord)" where
  "sendAll P s 0 = Inr ([], s)"
| "sendAll P s (Suc k) =
     (case advanceSend P s of
        Inl e \<Rightarrow> Inl e
      | Inr (mk, s') \<Rightarrow>
          (case sendAll P s' k of
             Inl e \<Rightarrow> Inl e
           | Inr (mks, s'') \<Rightarrow> Inr (mk # mks, s'')))"

text \<open>
  The receiver applies \<open>deriveReceiveKey\<close> to the counters in their order of arrival,
  keeping the session each time, and collects the key each call returned.
\<close>

fun receiveAll ::
  "platform \<Rightarrow> SessionRecord \<Rightarrow> nat list \<Rightarrow> error + (bytes option list \<times> SessionRecord)" where
  "receiveAll P s [] = Inr ([], s)"
| "receiveAll P s (n # ns) =
     (case deriveReceiveKey P s n MAX_SKIPPED_KEYS of
        Inl e \<Rightarrow> Inl e
      | Inr r \<Rightarrow>
          (case receiveAll P (nextSession r) ns of
             Inl e \<Rightarrow> Inl e
           | Inr (ks, s') \<Rightarrow> Inr (messageKey r # ks, s')))"

text \<open>
  An order of arrival stays in the window when, at each arrival of a counter \<open>n\<close> (after
  which \<open>recvN\<close> is at least \<open>n + 1\<close>), every counter still to arrive is at most 50 behind
  \<open>n + 1\<close>.
\<close>

fun in_window :: "nat list \<Rightarrow> bool" where
  "in_window [] = True"
| "in_window (n # ns) = ((\<forall>c \<in> set ns. n + 1 \<le> c + 50) \<and> in_window ns)"

text \<open>
  A small platform on which the definitions can be run. Base64 and base58 are replaced
  by the identity on binary strings, the digest of \<open>d\<close> is the first 32 bytes of \<open>d\<close>
  reversed and zero padding, a sealed box or ciphertext is the key followed by the
  message, and opening it checks the key.
\<close>

definition demoPlatform :: platform where
  "demoPlatform =
     \<lparr>btoa = (\<lambda>s. s),
      atob = (\<lambda>s. Some s),
      textEncoder_encode = map of_char,
      textDecoder_decode = map (\<lambda>b. char_of (unat b)),
      JSON_stringify = (\<lambda>j. case j of JString t \<Rightarrow> t | _ \<Rightarrow> ''{}''),
      JSON_parse = (\<lambda>t. Some (JString t)),
      bs58_decode = (\<lambda>t. Some (map of_char t)),
      keccak256 = (\<lambda>t. ''0x'' @ t),
      stringToHex = (\<lambda>t. t),
      toHex = map (\<lambda>b. char_of (unat b)),
      sha256 = (\<lambda>d. take 32 (rev d @ replicate 32 0)),
      aes_gcm_encrypt = (\<lambda>key iv d. key @ d),
      aes_gcm_decrypt = (\<lambda>key iv ct.
        if take (length key) ct = key then Some (drop (length key) ct) else None),
      hkdf_sha256 = (\<lambda>ikm salt info len. take len (info @ salt @ ikm @ replicate len 0)),
      nacl_box_before = (\<lambda>pk sk. Inr (take 32 (pk @ sk @ replicate 32 0))),
      nacl_box_open = (\<lambda>ct nonce pk sk. Inr (Some ct)),
      nacl_secretbox = (\<lambda>msg nonce key. Inr (key @ msg)),
      nacl_secretbox_open = (\<lambda>ct nonce key.
        Inr (if take (length key) ct = key then Some (drop (length key) ct) else None))\<rparr>"

definition demoSession :: SessionRecord where
  "demoSession =
     \<lparr>conversationId = ''c2'', kind = Dm, peerPubKey = ''peer'', groupId = None,
      sendCK = replicate 32 (CHR ''A''), recvCK = replicate 32 (CHR ''A''),
      sendN = 0, recvN = 0, skippedKeys = []\<rparr>"

text \<open>The entries the loop stores for the indices of a list.\<close>

definition cacheOf :: "platform \<Rightarrow> bytes \<Rightarrow> nat list \<Rightarrow> (nat \<times> string) list" where
  "cacheOf P c js = map (\<lambda>j. (j, bytesToBase64 P (msgKey P c j))) js"

text \<open>
  The counters below \<open>r\<close> that are not in the set \<open>R\<close> of counters already
  received, in ascending order.
\<close>

definition pending :: "nat set \<Rightarrow> nat \<Rightarrow> nat list" where
  "pending R r = filter (\<lambda>j. j \<notin> R) [0..<r]"

section \<open>Session engine (src/store/chatStore.ts)\<close>

subsection \<open>Records and envelopes\<close>

datatype RequestStatus = Pending | Accepted | Declined | Blocked

datatype MessageStatus = Sending | Sent | Delivered | Failed

datatype MessageKind =
    Kind_text | Kind_reaction | Kind_edit | Kind_delete | Kind_typing
  | Kind_attachment_meta | Kind_attachment_chunk | Kind_system | Kind_rekey

record IdentityRecord =
  ident_publicKey :: string
  ident_encryptedSecretKey :: string
  ident_iv :: string
  ident_salt :: string
  ident_createdAt :: nat

record RequestRecord =
  req_id :: string
  req_kind :: ChatKind
  req_fromPubKey :: string
  req_toPubKey :: string
  req_intro :: string
  req_status :: RequestStatus
  req_createdAt :: nat
  req_groupId :: "string option"
  req_groupName :: "string option"
  req_members :: "string list option"

record RequestStateRecord =
  rs_id :: string
  rs_status :: RequestStatus
  rs_updatedAt :: nat

record ChatRecord =
  chat_id :: string
  chat_kind :: ChatKind
  chat_title :: string
  chat_participants :: "string list"
  chat_accepted :: bool
  chat_createdAt :: nat
  chat_lastMessageAt :: "nat option"
  chat_unreadCount :: "nat option"
  chat_groupId :: "string option"

record MessageRecord =
  msg_id :: string
  msg_chatId :: string
  msg_type :: MessageKind
  msg_fromPubKey :: string
  msg_toPubKey :: "string option"
  msg_body :: "string option"
  msg_timestamp :: nat
  msg_status :: "MessageStatus option"
  msg_n :: "nat option"
  msg_replyTo :: "string option"
  msg_edited :: "bool option"
  msg_deleted :: "bool option"
  msg_keyMismatch :: "bool option"
  msg_attachmentId :: "string option"
  msg_localOnly :: "bool option"

text \<open>
  The wire envelopes of the handshake and of direct messages, after \<open>JSON.parse\<close> and
  before \<open>JSON.stringify\<close>, with every field present and of its declared type. Binary
  fields are base64 text. The sender of a \<open>dm_message\<close> and of a \<open>dm_ack\<close> is written
  from \<open>state.chatKey\<close>, of type \<open>string | null\<close>.
\<close>

datatype envelope =
    ChatRequestEnv (cr_requestId: string) (cr_fromPubKey: string) (cr_toPubKey: string)
      (cr_nonce: string) (cr_ciphertext: string) (cr_timestamp: nat)
  | ChatAcceptEnv (ca_requestId: string) (ca_fromPubKey: string) (ca_toPubKey: string)
      (ca_conversationId: string) (ca_timestamp: nat)
  | ChatBlockedEnv (cb_requestId: string) (cb_fromPubKey: string) (cb_toPubKey: string)
      (cb_conversationId: string) (cb_timestamp: nat)
  | DmMessageEnv (dm_conversationId: string) (dm_messageId: string)
      (dm_fromPubKey: "string option")
      (dm_n: nat) (dm_nonce: string) (dm_ciphertext: string) (dm_timestamp: nat)
  | DmAckEnv (ack_conversationId: string) (ack_messageId: string)
      (ack_fromPubKey: "string option")
      (ack_toPubKey: string) (ack_timestamp: nat)

text \<open>
  The engine's world: the fields of the in-memory store that the modelled functions read
  or write (the store also holds reactions, attachments, typing indicators, the active
  chat and a readiness flag, which none of them touches), the object stores of the
  IndexedDB database (src/lib/idb.ts) they write, each keyed by its key path, and the
  payloads handed to \<open>publishPayload\<close> (src/lib/waku.ts) with their content topics, in
  order. A publication is taken to succeed.
\<close>

record world =
  identity :: "IdentityRecord option"
  unlockedSecretKey :: "bytes option"
  chatKey :: "string option"
  requests :: "RequestRecord list"
  chats :: "ChatRecord list"
  messages :: "string \<rightharpoonup> MessageRecord list"
  sessions :: "string \<rightharpoonup> SessionRecord"
  errors :: "string list"
  idb_requests :: "string \<rightharpoonup> RequestRecord"
  idb_requestStates :: "string \<rightharpoonup> RequestStateRecord"
  idb_sessions_dm :: "string \<rightharpoonup> SessionRecord"
  idb_messages :: "string \<rightharpoonup> MessageRecord"
  published :: "(string \<times> envelope) list"

text \<open>
  What one call draws from the clock and from the random generators: \<open>now i\<close> is the
  value of the \<open>i\<close>-th call of \<open>now()\<close> during the call, and likewise for \<open>randomId()\<close>
  and \<open>randomBytes(24)\<close>.
\<close>

record draws =
  now :: "nat \<Rightarrow> nat"
  randomId :: "nat \<Rightarrow> string"
  randomBytes24 :: "nat \<Rightarrow> bytes"

text \<open>
  How a handler ends: it returns, it throws (the promise rejects) after the effects made
  so far, it goes on to \<open>handleInnerPayload\<close> with the decrypted inner payload, or it
  enters a branch that this model does not cover (group chats, the other envelope types).
\<close>

datatype outcome =
    Returned world
  | Threw error world
  | Dispatched string string json string world
  | Elsewhere

subsection \<open>Helpers\<close>

text \<open>\<open>!v\<close> for a value of type \<open>string | null\<close>: it is null or the empty string.\<close>

definition absent :: "string option \<Rightarrow> bool" where
  "absent v = (case v of None \<Rightarrow> True | Some t \<Rightarrow> t = [])"

definition addError :: "string \<Rightarrow> world \<Rightarrow> world" where
  "addError message w =
     (let es = errors w @ [message] in w\<lparr>errors := drop (length es - 5) es\<rparr>)"

definition encodePayload :: "platform \<Rightarrow> json \<Rightarrow> bytes" where
  "encodePayload P payload = stringToBytes P (JSON_stringify P payload)"

definition decodePayload :: "platform \<Rightarrow> bytes \<Rightarrow> json" where
  "decodePayload P bs =
     (case JSON_parse P (bytesToString P bs) of None \<Rightarrow> JNull | Some v \<Rightarrow> v)"

text \<open>The values for which \<open>!v\<close> holds.\<close>

fun falsy :: "json \<Rightarrow> bool" where
  "falsy JNull = True"
| "falsy (JBool b) = (\<not> b)"
| "falsy (JNumber i) = (i = 0)"
| "falsy (JString t) = (t = [])"
| "falsy (JArray xs) = False"
| "falsy (JObject kvs) = False"

definition messageListForChat ::
  "(string \<rightharpoonup> MessageRecord list) \<Rightarrow> string \<Rightarrow> MessageRecord list" where
  "messageListForChat ms chatId = (case ms chatId of None \<Rightarrow> [] | Some l \<Rightarrow> l)"

text \<open>\<open>Array.prototype.sort\<close> is stable, as \<open>sort_key\<close> is.\<close>

definition updateMessageList ::
  "(string \<rightharpoonup> MessageRecord list) \<Rightarrow> string \<Rightarrow> MessageRecord
     \<Rightarrow> (string \<rightharpoonup> MessageRecord list)" where
  "updateMessageList ms chatId next =
     (let l = messageListForChat ms chatId @ [next]
      in ms(chatId \<mapsto> sort_key msg_timestamp l))"

definition createSystemMessage :: "draws \<Rightarrow> string \<Rightarrow> string \<Rightarrow> MessageRecord" where
  "createSystemMessage D chatId body =
     \<lparr>msg_id = randomId D 0, msg_chatId = chatId, msg_type = Kind_system,
      msg_fromPubKey = ''system'', msg_toPubKey = None, msg_body = Some body,
      msg_timestamp = now D 0, msg_status = None, msg_n = None, msg_replyTo = None,
      msg_edited = None, msg_deleted = None, msg_keyMismatch = None,
      msg_attachmentId = None, msg_localOnly = None\<rparr>"

definition setSession :: "SessionRecord \<Rightarrow> world \<Rightarrow> world" where
  "setSession session w =
     w\<lparr>idb_sessions_dm := (idb_sessions_dm w)(conversationId session \<mapsto> session)\<rparr>"

definition setMessage :: "MessageRecord \<Rightarrow> world \<Rightarrow> world" where
  "setMessage message w = w\<lparr>idb_messages := (idb_messages w)(msg_id message \<mapsto> message)\<rparr>"

definition setRequest :: "RequestRecord \<Rightarrow> world \<Rightarrow> world" where
  "setRequest request w = w\<lparr>idb_requests := (idb_requests w)(req_id request \<mapsto> request)\<rparr>"

definition setRequestState :: "RequestStateRecord \<Rightarrow> world \<Rightarrow> world" where
  "setRequestState rs w = w\<lparr>idb_requestStates := (idb_requestStates w)(rs_id rs \<mapsto> rs)\<rparr>"

definition publishPayload :: "string \<Rightarrow> envelope \<Rightarrow> world \<Rightarrow> world" where
  "publishPayload topic payload w = w\<lparr>published := published w @ [(topic, payload)]\<rparr>"

subsection \<open>Sessions\<close>

definition ensureSession ::
  "platform \<Rightarrow> string \<Rightarrow> ChatKind \<Rightarrow> string \<Rightarrow> world \<Rightarrow> error + (SessionRecord \<times> world)" where
  "ensureSession P cid knd peer w =
     (case (case sessions w cid of Some s \<Rightarrow> Some s | None \<Rightarrow> idb_sessions_dm w cid) of
        Some existing \<Rightarrow> Inr (existing, w)
      | None \<Rightarrow>
          (case (unlockedSecretKey w, chatKey w) of
             (Some secretKey, Some me) \<Rightarrow>
               if me = [] then Inl MissingSecretKey
               else
               (case base58ToBytes P peer of
                  Inl e \<Rightarrow> Inl e
                | Inr peerBytes \<Rightarrow>
                    (case nacl_box_before P peerBytes secretKey of
                       Inl e \<Rightarrow> Inl e
                     | Inr sharedSecret \<Rightarrow>
                         (let rootKey = deriveRootKey P sharedSecret cid;
                              (sendCK0, recvCK0) = deriveChainKeys P rootKey me peer;
                              session =
                                \<lparr>conversationId = cid, kind = knd, peerPubKey = peer,
                                 groupId = None,
                                 sendCK = bytesToBase64 P sendCK0,
                                 recvCK = bytesToBase64 P recvCK0,
                                 sendN = 0, recvN = 0, skippedKeys = []\<rparr>;
                              w1 = setSession session w
                          in Inr (session, w1\<lparr>sessions := (sessions w1)(cid \<mapsto> session)\<rparr>))))
           | _ \<Rightarrow> Inl MissingSecretKey))"

text \<open>
  A throw of \<open>getSendKey\<close> comes with the world at that point: \<open>ensureSession\<close> may
  have stored a new session before \<open>advanceSend\<close> throws.
\<close>

definition getSendKey ::
  "platform \<Rightarrow> string \<Rightarrow> ChatKind \<Rightarrow> string \<Rightarrow> world
     \<Rightarrow> (error \<times> world) + ((bytes \<times> SessionRecord) \<times> world)" where
  "getSendKey P cid knd peer w =
     (case ensureSession P cid knd peer w of
        Inl e \<Rightarrow> Inl (e, w)
      | Inr (session, w1) \<Rightarrow>
          (case advanceSend P session of
             Inl e \<Rightarrow> Inl (e, w1)
           | Inr (mk, session') \<Rightarrow> Inr ((mk, session'), w1)))"

subsection \<open>Outbound direct messages\<close>

definition messageNumberOf :: "SessionRecord \<Rightarrow> nat" where
  "messageNumberOf session = nat (max 0 (int (sendN session) - 1))"

definition textPayload :: "string \<Rightarrow> string option \<Rightarrow> json" where
  "textPayload body replyTo =
     JObject ([(''kind'', JString ''text''), (''body'', JString body)] @
              (case replyTo of None \<Rightarrow> [] | Some r \<Rightarrow> [(''replyTo'', JString r)]))"

text \<open>
  \<open>sendMessage\<close>, the branch for a direct chat. \<open>messageNumberOf\<close> is the source's
  \<open>Math.max(0, session.sendN - 1)\<close> on the session \<open>getSendKey\<close> returned.
\<close>

definition sendMessage ::
  "platform \<Rightarrow> draws \<Rightarrow> string \<Rightarrow> string \<Rightarrow> string option \<Rightarrow> world \<Rightarrow> outcome" where
  "sendMessage P D chatId body replyTo w =
     (case find (\<lambda>item. chat_id item = chatId) (chats w) of
        None \<Rightarrow> Returned (addError ''Chat not ready.'' w)
      | Some chat \<Rightarrow>
          if \<not> chat_accepted chat \<or> unlockedSecretKey w = None \<or> absent (chatKey w) then
            Returned (addError ''Chat not ready.'' w)
          else if chat_kind chat = Group then Elsewhere
          else
            (case find (\<lambda>key. Some key \<noteq> chatKey w) (chat_participants chat) of
               None \<Rightarrow> Returned w
             | Some peer \<Rightarrow>
                 if peer = [] then Returned w
                 else
                   (case getSendKey P chatId (chat_kind chat) peer w of
                      Inl (e, w') \<Rightarrow> Threw e w'
                    | Inr ((mk, session), w1) \<Rightarrow>
                        (let messageNumber = messageNumberOf session;
                             nonce = randomBytes24 D 0;
                             innerPayload = textPayload body replyTo
                         in case nacl_secretbox P (encodePayload P innerPayload) nonce mk of
                              Inl e \<Rightarrow> Threw e w1
                            | Inr ciphertext \<Rightarrow>
                                (let messageId = randomId D 0;
                                     payload = DmMessageEnv chatId messageId (chatKey w)
                                       messageNumber (bytesToBase64 P nonce)
                                       (bytesToBase64 P ciphertext) (now D 0);
                                     w2 = publishPayload (dmTopic chatId) payload w1;
                                     w3 = setSession session w2;
                                     message =
                                       \<lparr>msg_id = messageId, msg_chatId = chatId,
                                        msg_type = Kind_text,
                                        msg_fromPubKey = (case chatKey w of Some me \<Rightarrow> me | None \<Rightarrow> []),
                                        msg_toPubKey = None, msg_body = Some body,
                                        msg_timestamp = now D 1, msg_status = Some Sent,
                                        msg_n = Some messageNumber, msg_replyTo = replyTo,
                                        msg_edited = None, msg_deleted = None,
                                        msg_keyMismatch = None, msg_attachmentId = None,
                                        msg_localOnly = None\<rparr>;
                                     w4 = setMessage message w3
                                 in Returned
                                      (w4\<lparr>messages := updateMessageList (messages w4) chatId message,
                                          chats := map (\<lambda>item. if chat_id item = chatId
                                                     then item\<lparr>chat_lastMessageAt := Some (now D 2)\<rparr>
                                                     else item) (chats w4),
                                          sessions := (sessions w4)(chatId \<mapsto> session)\<rparr>))))))"

definition sendEventMessage ::
  "platform \<Rightarrow> draws \<Rightarrow> ChatRecord \<Rightarrow> json \<Rightarrow> string option \<Rightarrow> world \<Rightarrow> outcome" where
  "sendEventMessage P D chat eventPayload messageId w =
     (case find (\<lambda>key. Some key \<noteq> chatKey w) (chat_participants chat) of
        None \<Rightarrow> Returned w
      | Some peer \<Rightarrow>
          if peer = [] then Returned w
          else
            (case getSendKey P (chat_id chat) (chat_kind chat) peer w of
               Inl (e, w') \<Rightarrow> Threw e w'
             | Inr ((mk, session), w1) \<Rightarrow>
                 (let messageNumber = messageNumberOf session;
                      nonce = randomBytes24 D 0
                  in case nacl_secretbox P (encodePayload P eventPayload) nonce mk of
                       Inl e \<Rightarrow> Threw e w1
                     | Inr ciphertext \<Rightarrow>
                         (let outboundId = (if absent messageId then randomId D 0
                                            else (case messageId of Some m \<Rightarrow> m | None \<Rightarrow> []));
                              payload = DmMessageEnv (chat_id chat) outboundId (chatKey w)
                                messageNumber (bytesToBase64 P nonce)
                                (bytesToBase64 P ciphertext) (now D 0);
                              w2 = publishPayload (dmTopic (chat_id chat)) payload w1;
                              w3 = setSession session w2
                          in Returned (w3\<lparr>sessions := (sessions w3)(chat_id chat \<mapsto> session)\<rparr>)))))"

subsection \<open>Inbound pipeline\<close>

text \<open>
  The block both failure branches of \<open>handleEncryptedMessage\<close> run: the system message
  is stored as created, and joins the conversation in memory with the flag set.
\<close>

definition keyMismatchMessage :: "draws \<Rightarrow> string \<Rightarrow> world \<Rightarrow> world" where
  "keyMismatchMessage D chatId w =
     (let keyMismatch = createSystemMessage D chatId ''Key mismatch. Rekey to continue.'';
          w1 = setMessage keyMismatch w
      in w1\<lparr>messages := updateMessageList (messages w1) chatId
                            (keyMismatch\<lparr>msg_keyMismatch := Some True\<rparr>)\<rparr>)"

text \<open>
  \<open>handleEncryptedMessage\<close>, up to its last statement, the call of
  \<open>handleInnerPayload\<close>: the outcome \<open>Dispatched\<close> carries that call's arguments.
\<close>

fun handleEncryptedMessage :: "platform \<Rightarrow> draws \<Rightarrow> envelope \<Rightarrow> world \<Rightarrow> outcome" where
  "handleEncryptedMessage P D (DmMessageEnv chatId messageId (Some fromPubKey) n nonce64 ct64 ts) w =
     (if Some fromPubKey = chatKey w then Returned w
      else
        (case find (\<lambda>item. chat_id item = chatId) (chats w) of
           None \<Rightarrow> Returned w
         | Some chat \<Rightarrow>
             (case ensureSession P chatId Dm fromPubKey w of
                Inl e \<Rightarrow> Threw e w
              | Inr (session, w1) \<Rightarrow>
                  (case deriveReceiveKey P session n MAX_SKIPPED_KEYS of
                     Inl e \<Rightarrow> Threw e w1
                   | Inr r \<Rightarrow>
                       (case messageKey r of
                          None \<Rightarrow> Returned (keyMismatchMessage D chatId w1)
                        | Some mk \<Rightarrow>
                            (case base64ToBytes P nonce64 of
                               Inl e \<Rightarrow> Threw e w1
                             | Inr nonce \<Rightarrow>
                                 (case base64ToBytes P ct64 of
                                    Inl e \<Rightarrow> Threw e w1
                                  | Inr ciphertext \<Rightarrow>
                                      (case nacl_secretbox_open P ciphertext nonce mk of
                                         Inl e \<Rightarrow> Threw e w1
                                       | Inr None \<Rightarrow> Returned (keyMismatchMessage D chatId w1)
                                       | Inr (Some decrypted) \<Rightarrow>
                                           (let inner = decodePayload P decrypted in
                                            if falsy inner then Returned w1
                                            else
                                              (let w2 = setSession (nextSession r) w1;
                                                   w3 = w2\<lparr>sessions :=
                                                          (sessions w2)(chatId \<mapsto> nextSession r)\<rparr>
                                               in case base58ToBytes P fromPubKey of
                                                    Inl e \<Rightarrow> Threw e w3
                                                  | Inr pk \<Rightarrow>
                                                      Dispatched chatId fromPubKey inner messageId
                                                        (publishPayload (inboxTopic P pk)
                                                           (DmAckEnv chatId messageId (chatKey w)
                                                              fromPubKey (now D 0)) w3)))))))))))"
| "handleEncryptedMessage P D other w = Elsewhere"

text \<open>
  The branch of \<open>handleIncoming\<close> for \<open>chat_request\<close>, with the narrowed
  \<open>state.chatKey\<close> and \<open>state.unlockedSecretKey\<close>.
\<close>

definition handleChatRequest ::
  "platform \<Rightarrow> draws \<Rightarrow> string \<Rightarrow> bytes \<Rightarrow> string \<Rightarrow> string \<Rightarrow> string \<Rightarrow> string \<Rightarrow> nat
     \<Rightarrow> world \<Rightarrow> outcome" where
  "handleChatRequest P D me secretKey requestId fromPubKey nonce64 ct64 ts w =
     (let chatId = conversationIdFromPubKeys P me fromPubKey in
      case find (\<lambda>item. chat_id item = chatId \<and> chat_accepted item) (chats w) of
        Some acceptedChat \<Rightarrow>
          (case base58ToBytes P fromPubKey of
             Inl e \<Rightarrow> Threw e w
           | Inr pk \<Rightarrow>
               Returned (publishPayload (inboxTopic P pk)
                           (ChatAcceptEnv requestId me fromPubKey chatId (now D 0)) w))
      | None \<Rightarrow>
          (case find (\<lambda>item. req_fromPubKey item = fromPubKey \<and> req_toPubKey item = me \<and>
                              req_status item = Blocked) (requests w) of
             Some blockedRequest \<Rightarrow>
               (case base58ToBytes P fromPubKey of
                  Inl e \<Rightarrow> Threw e w
                | Inr pk \<Rightarrow>
                    Returned (publishPayload (inboxTopic P pk)
                                (ChatBlockedEnv requestId me fromPubKey chatId (now D 0)) w))
           | None \<Rightarrow>
               (case base64ToBytes P nonce64 of
                  Inl e \<Rightarrow> Threw e w
                | Inr nonce \<Rightarrow>
                    (case base64ToBytes P ct64 of
                       Inl e \<Rightarrow> Threw e w
                     | Inr ciphertext \<Rightarrow>
                         (case base58ToBytes P fromPubKey of
                            Inl e \<Rightarrow> Threw e w
                          | Inr pk \<Rightarrow>
                              (case nacl_box_open P ciphertext nonce pk secretKey of
                                 Inl e \<Rightarrow> Threw e w
                               | Inr introBytes \<Rightarrow>
                                   (let intro = (case introBytes of
                                                   Some bs \<Rightarrow> bytesToString P bs
                                                 | None \<Rightarrow> ''Unable to decrypt intro.'');
                                        request =
                                          \<lparr>req_id = requestId, req_kind = Dm,
                                           req_fromPubKey = fromPubKey, req_toPubKey = me,
                                           req_intro = intro, req_status = Pending,
                                           req_createdAt = (if ts = 0 then now D 0 else ts),
                                           req_groupId = None, req_groupName = None,
                                           req_members = None\<rparr>;
                                        w1 = setRequest request w;
                                        w2 = setRequestState
                                               \<lparr>rs_id = requestId, rs_status = Pending,
                                                rs_updatedAt = now D (if ts = 0 then 1 else 0)\<rparr> w1
                                    in Returned
                                         (w2\<lparr>requests :=
                                               filter (\<lambda>item. req_id item \<noteq> requestId) (requests w2)
                                               @ [request]\<rparr>))))))))"

text \<open>
  \<open>handleIncoming\<close> on a decoded envelope: the gate on the unlocked identity, then the
  dispatch on the type.
\<close>

definition handleIncoming :: "platform \<Rightarrow> draws \<Rightarrow> envelope \<Rightarrow> world \<Rightarrow> outcome" where
  "handleIncoming P D message w =
     (if absent (chatKey w) \<or> unlockedSecretKey w = None \<or> identity w = None then Returned w
      else
        (case (chatKey w, unlockedSecretKey w) of
           (Some me, Some secretKey) \<Rightarrow>
             (case message of
                ChatRequestEnv requestId fromPubKey toPubKey nonce64 ct64 ts \<Rightarrow>
                  handleChatRequest P D me secretKey requestId fromPubKey nonce64 ct64 ts w
              | DmMessageEnv chatId messageId fromPubKey n nonce64 ct64 ts \<Rightarrow>
                  handleEncryptedMessage P D message w
              | _ \<Rightarrow> Elsewhere)
         | _ \<Rightarrow> Returned w))"

subsection \<open>A world to run the engine on\<close>

text \<open>
  Alice's unlocked store with one accepted direct chat with Bob and its freshly seeded
  session, on the demonstration platform (where the conversation identifier of the two
  keys is their sorted join).
\<close>

definition demoChatSession :: SessionRecord where
  "demoChatSession = demoSession\<lparr>conversationId := ''alice:bob'', peerPubKey := ''bob''\<rparr>"

definition demoWorld :: world where
  "demoWorld =
     \<lparr>identity = Some \<lparr>ident_publicKey = ''YWxpY2U='', ident_encryptedSecretKey = ''c2VhbGVk'',
                        ident_iv = ''aXY='', ident_salt = ''c2FsdA=='', ident_createdAt = 1\<rparr>,
      unlockedSecretKey = Some (replicate 32 7),
      chatKey = Some ''alice'',
      requests = [],
      chats = [\<lparr>chat_id = ''alice:bob'', chat_kind = Dm, chat_title = ''bob'',
                chat_participants = [''alice'', ''bob''], chat_accepted = True,
                chat_createdAt = 2, chat_lastMessageAt = None, chat_unreadCount = None,
                chat_groupId = None\<rparr>],
      messages = Map.empty,
      sessions = [''alice:bob'' \<mapsto> demoChatSession],
      errors = [],
      idb_requests = Map.empty,
      idb_requestStates = Map.empty,
      idb_sessions_dm = [''alice:bob'' \<mapsto> demoChatSession],
      idb_messages = Map.empty,
      published = []\<rparr>"

definition demoDraws :: draws where
  "demoDraws = \<lparr>now = (\<lambda>i. 100 + i), randomId = (\<lambda>i. ''id'' @ replicate i (CHR ''x'')),
                randomBytes24 = (\<lambda>i. replicate 24 (of_nat i))\<rparr>"

text \<open>The world an outcome ends in, when the model covers the branch taken.\<close>

fun worldOf :: "outcome \<Rightarrow> world option" where
  "worldOf (Returned w) = Some w"
| "worldOf (Threw e w) = Some w"
| "worldOf (Dispatched c f i m w) = Some w"
| "worldOf Elsewhere = None"

subsection \<open>Sequences of sends\<close>






subsection \<open>Overlapping sends\<close>

text \<open>
  The send functions are \<open>async\<close>, and nothing in the store serialises their calls: there
  is no lock and no queue. A call reads \<open>state.sessions\<close> in \<open>ensureSession\<close> as soon
  as it starts, before it first suspends at an \<open>await\<close>, and it writes the
  advanced session back (\<open>setSession\<close>, \<open>setState\<close>) only after \<open>advanceSend\<close> and
  \<open>publishPayload\<close> have been awaited. The composer starts \<open>sendTyping\<close> on every
  keystroke without awaiting it (\<open>handleTyping\<close>), so that a call can start while an
  earlier one is still waiting.

  To follow such calls, each send function is cut where it first writes after the
  session is in hand. The first part goes from the entry to the envelope: the checks,
  \<open>getSendKey\<close> (with the store of a newly seeded session by \<open>ensureSession\<close>),
  \<open>messageNumber\<close>, the nonce, the ciphertext and the payload object. Its result is what
  the call holds in its local variables from then on. The second part is the rest:
  \<open>publishPayload\<close>, \<open>setSession\<close> and the updates of the store, which are applied to
  the store as it is then (\<open>setState\<close> is given a function of the previous state).
\<close>

record preparedSend =
  prep_chatId :: string
  prep_session :: SessionRecord
  prep_payload :: envelope

text \<open>\<open>sendEventMessage\<close> up to the payload object.\<close>

definition sendEventMessage_prepare ::
  "platform \<Rightarrow> draws \<Rightarrow> ChatRecord \<Rightarrow> json \<Rightarrow> string option \<Rightarrow> world
     \<Rightarrow> outcome + (preparedSend \<times> world)" where
  "sendEventMessage_prepare P D chat eventPayload messageId w =
     (case find (\<lambda>key. Some key \<noteq> chatKey w) (chat_participants chat) of
        None \<Rightarrow> Inl (Returned w)
      | Some peer \<Rightarrow>
          if peer = [] then Inl (Returned w)
          else
            (case getSendKey P (chat_id chat) (chat_kind chat) peer w of
               Inl (e, w') \<Rightarrow> Inl (Threw e w')
             | Inr ((mk, session), w1) \<Rightarrow>
                 (let messageNumber = messageNumberOf session;
                      nonce = randomBytes24 D 0
                  in case nacl_secretbox P (encodePayload P eventPayload) nonce mk of
                       Inl e \<Rightarrow> Inl (Threw e w1)
                     | Inr ciphertext \<Rightarrow>
                         (let outboundId = (if absent messageId then randomId D 0
                                            else (case messageId of Some m \<Rightarrow> m | None \<Rightarrow> []));
                              payload = DmMessageEnv (chat_id chat) outboundId (chatKey w)
                                messageNumber (bytesToBase64 P nonce)
                                (bytesToBase64 P ciphertext) (now D 0)
                          in Inr (\<lparr>prep_chatId = chat_id chat, prep_session = session,
                                   prep_payload = payload\<rparr>, w1)))))"

text \<open>\<open>sendEventMessage\<close> from \<open>publishPayload\<close> on.\<close>

definition sendEventMessage_commit :: "preparedSend \<Rightarrow> world \<Rightarrow> world" where
  "sendEventMessage_commit pr w =
     (let w2 = publishPayload (dmTopic (prep_chatId pr)) (prep_payload pr) w;
          w3 = setSession (prep_session pr) w2
      in w3\<lparr>sessions := (sessions w3)(prep_chatId pr \<mapsto> prep_session pr)\<rparr>)"

text \<open>\<open>sendMessage\<close>, the branch for a direct chat, up to the payload object.\<close>

definition sendMessage_prepare ::
  "platform \<Rightarrow> draws \<Rightarrow> string \<Rightarrow> string \<Rightarrow> string option \<Rightarrow> world
     \<Rightarrow> outcome + (preparedSend \<times> world)" where
  "sendMessage_prepare P D chatId body replyTo w =
     (case find (\<lambda>item. chat_id item = chatId) (chats w) of
        None \<Rightarrow> Inl (Returned (addError ''Chat not ready.'' w))
      | Some chat \<Rightarrow>
          if \<not> chat_accepted chat \<or> unlockedSecretKey w = None \<or> absent (chatKey w) then
            Inl (Returned (addError ''Chat not ready.'' w))
          else if chat_kind chat = Group then Inl Elsewhere
          else
            (case find (\<lambda>key. Some key \<noteq> chatKey w) (chat_participants chat) of
               None \<Rightarrow> Inl (Returned w)
             | Some peer \<Rightarrow>
                 if peer = [] then Inl (Returned w)
                 else
                   (case getSendKey P chatId (chat_kind chat) peer w of
                      Inl (e, w') \<Rightarrow> Inl (Threw e w')
                    | Inr ((mk, session), w1) \<Rightarrow>
                        (let messageNumber = messageNumberOf session;
                             nonce = randomBytes24 D 0;
                             innerPayload = textPayload body replyTo
                         in case nacl_secretbox P (encodePayload P innerPayload) nonce mk of
                              Inl e \<Rightarrow> Inl (Threw e w1)
                            | Inr ciphertext \<Rightarrow>
                                (let messageId = randomId D 0;
                                     payload = DmMessageEnv chatId messageId (chatKey w)
                                       messageNumber (bytesToBase64 P nonce)
                                       (bytesToBase64 P ciphertext) (now D 0)
                                 in Inr (\<lparr>prep_chatId = chatId, prep_session = session,
                                          prep_payload = payload\<rparr>, w1))))))"

text \<open>
  \<open>sendMessage\<close> from \<open>publishPayload\<close> on. The message record is built from the locals
  \<open>messageId\<close>, \<open>state.chatKey\<close> and \<open>messageNumber\<close>, which the payload object holds
  too.
\<close>

definition sendMessage_commit ::
  "draws \<Rightarrow> string \<Rightarrow> string option \<Rightarrow> preparedSend \<Rightarrow> world \<Rightarrow> world" where
  "sendMessage_commit D body replyTo pr w =
     (let chatId = prep_chatId pr;
          session = prep_session pr;
          w2 = publishPayload (dmTopic chatId) (prep_payload pr) w;
          w3 = setSession session w2;
          message =
            \<lparr>msg_id = dm_messageId (prep_payload pr), msg_chatId = chatId,
             msg_type = Kind_text,
             msg_fromPubKey = (case dm_fromPubKey (prep_payload pr) of
                                 Some me \<Rightarrow> me | None \<Rightarrow> []),
             msg_toPubKey = None, msg_body = Some body,
             msg_timestamp = now D 1, msg_status = Some Sent,
             msg_n = Some (dm_n (prep_payload pr)), msg_replyTo = replyTo,
             msg_edited = None, msg_deleted = None,
             msg_keyMismatch = None, msg_attachmentId = None,
             msg_localOnly = None\<rparr>;
          w4 = setMessage message w3
      in w4\<lparr>messages := updateMessageList (messages w4) chatId message,
            chats := map (\<lambda>item. if chat_id item = chatId
                       then item\<lparr>chat_lastMessageAt := Some (now D 2)\<rparr>
                       else item) (chats w4),
            sessions := (sessions w4)(chatId \<mapsto> session)\<rparr>)"



section \<open>Properties of the ratchet\<close>

lemma length_update_le: "length (AList.update k v al) \<le> Suc (length al)"
  by (induction al) auto

lemma length_delete_le: "length (AList.delete k al) \<le> length al"
  by (simp add: AList.delete_eq)

lemma set_delete_subset: "set (AList.delete k al) \<subseteq> set al"
  by (auto simp: AList.delete_eq)

lemma fst_set_update: "fst ` set (AList.update k v al) = insert k (fst ` set al)"
  by (induction al) auto

lemma trimSkipped_length: "length (trimSkipped sk m) \<le> max m (length sk)"
  by (simp add: trimSkipped_def Let_def)

lemma trimSkipped_length_le: "length sk \<le> m \<Longrightarrow> trimSkipped sk m = sk"
  by (simp add: trimSkipped_def)

lemma trimSkipped_set: "set (trimSkipped sk m) \<subseteq> set sk"
proof (cases "length sk \<le> m")
  case True
  then show ?thesis by (simp add: trimSkipped_def)
next
  case False
  have "set (drop (length sk - m) (sort_key fst sk)) \<subseteq> set (sort_key fst sk)"
    by (rule set_drop_subset)
  with False show ?thesis by (simp add: trimSkipped_def Let_def)
qed

text \<open>The loop never grows the cache past the cap, and stores only indices below \<open>n\<close>.\<close>

lemma deriveLoop_cache:
  assumes "deriveLoop P m n i ck d sk = (ck', d', sk')"
  shows "length sk' \<le> max m (length sk) \<and> fst ` set sk' \<subseteq> fst ` set sk \<union> {i..<n}"
  using assms
proof (induction P m n i ck d sk rule: deriveLoop.induct)
  case (1 P m n i ck d sk)
  show ?case
  proof (cases "i \<le> n")
    case False
    with "1.prems" show ?thesis by (simp add: deriveLoop.simps)
  next
    case le: True
    show ?thesis
    proof (cases "i = n")
      case True
      with le "1.prems" "1.IH"(1)[OF le refl refl True] show ?thesis
        by (simp add: deriveLoop.simps [of P m n n] Let_def)
    next
      case ne: False
      show ?thesis
      proof (cases "length sk < m")
        case True
        let ?sk = "AList.update i (bytesToBase64 P (hmacSha256 P ck (MSG_LABEL P))) sk"
        from le ne True "1.prems"
        have "deriveLoop P m n (i + 1) (hmacSha256 P ck (CK_LABEL P)) d ?sk = (ck', d', sk')"
          by (simp add: deriveLoop.simps [of P m n i] Let_def)
        from "1.IH"(2)[OF le refl refl ne True this]
        have a: "length sk' \<le> max m (length ?sk)"
          and b: "fst ` set sk' \<subseteq> fst ` set ?sk \<union> {i + 1..<n}" by auto
        have "length ?sk \<le> m" using True length_update_le [of i _ sk]
          by (meson Suc_leI le_trans)
        with a have "length sk' \<le> max m (length sk)" by simp
        moreover have "fst ` set sk' \<subseteq> fst ` set sk \<union> {i..<n}"
          using b le ne by (auto simp: fst_set_update)
        ultimately show ?thesis by simp
      next
        case False
        from le ne False "1.prems"
        have "deriveLoop P m n (i + 1) (hmacSha256 P ck (CK_LABEL P)) d sk = (ck', d', sk')"
          by (simp add: deriveLoop.simps [of P m n i] Let_def)
        from "1.IH"(3)[OF le refl refl ne False this] show ?thesis
          by auto
      qed
    qed
  qed
qed

lemma cacheInv_advanceSend:
  assumes "cacheInv s" and "advanceSend P s = Inr (k, s')"
  shows "cacheInv s'"
  using assms by (auto simp: advanceSend_def cacheInv_def Let_def split: sum.splits)

lemma cacheInv_deriveReceiveKey:
  assumes inv: "cacheInv s" and step: "deriveReceiveKey P s n 50 = Inr r"
  shows "cacheInv (nextSession r)"
proof (cases "n < recvN s")
  case True
  have "cacheInv (s\<lparr>skippedKeys := AList.delete n (skippedKeys s)\<rparr>)"
    using inv length_delete_le [of n "skippedKeys s"] set_delete_subset [of n "skippedKeys s"]
    by (auto simp: cacheInv_def list_all_iff)
  with True inv step show ?thesis
    by (auto simp: deriveReceiveKey_def Let_def split: option.splits if_splits sum.splits)
next
  case False
  from False step obtain ck0 ck d sk' where
    loop: "deriveLoop P 50 n (recvN s) ck0 None (skippedKeys s) = (ck, d, sk')" and
    r: "nextSession r = s\<lparr>recvCK := bytesToBase64 P ck, recvN := n + 1,
                           skippedKeys := trimSkipped sk' 50\<rparr>"
    by (auto simp: deriveReceiveKey_def Let_def split: sum.splits prod.splits)
  from deriveLoop_cache [OF loop] inv
  have len: "length sk' \<le> 50"
    and keys: "fst ` set sk' \<subseteq> fst ` set (skippedKeys s) \<union> {recvN s..<n}"
    by (auto simp: cacheInv_def)
  have "length (trimSkipped sk' 50) \<le> 50"
    using trimSkipped_length [of sk' 50] len by simp
  moreover have "\<forall>(i, v) \<in> set (trimSkipped sk' 50). i < n + 1"
  proof (clarify)
    fix i v assume "(i, v) \<in> set (trimSkipped sk' 50)"
    then have "(i, v) \<in> set sk'" using trimSkipped_set by blast
    then have "i \<in> fst ` set sk'" by force
    with keys have "i \<in> fst ` set (skippedKeys s) \<or> i < n" by auto
    moreover have "\<forall>j \<in> fst ` set (skippedKeys s). j < recvN s"
      using inv by (auto simp: cacheInv_def list_all_iff)
    ultimately show "i < n + 1" using False by force
  qed
  ultimately show ?thesis using r by (simp add: cacheInv_def list_all_iff)
qed

lemma update_fresh: "k \<notin> fst ` set al \<Longrightarrow> AList.update k v al = al @ [(k, v)]"
  by (induction al) auto

lemma byte_char_roundtrip: "(of_char (char_of (unat b)) :: 8 word) = b" for b :: "8 word"
proof -
  have lt: "unat b < 256" using unsigned_less [of b, where ?'a = nat] by simp
  have "(of_char (char_of (unat b)) :: 8 word) = of_nat (of_char (char_of (unat b)))"
    by (simp only: of_nat_of_char)
  also have "(of_char (char_of (unat b)) :: nat) = unat b" using lt by simp
  finally show ?thesis by simp
qed

lemma b64_roundtrip:
  assumes "platform_wf P"
  shows "base64ToBytes P (bytesToBase64 P bs) = Inr bs"
proof -
  have "map (\<lambda>c. of_char c) (map (\<lambda>byte. char_of (unat byte)) bs) = bs"
    by (simp add: map_idI byte_char_roundtrip)
  with assms show ?thesis
    by (simp add: base64ToBytes_def bytesToBase64_def platform_wf_def)
qed

lemma hmac_length:
  assumes "platform_wf P"
  shows "length (hmacSha256 P k d) = 32"
  using assms by (simp add: hmacSha256_def hmac_def platform_wf_def Let_def)

lemma b64_msgKey_nonempty:
  assumes "platform_wf P"
  shows "bytesToBase64 P (msgKey P c j) \<noteq> []"
proof
  from assms have imp: "btoa P s = [] \<Longrightarrow> s = []" for s
    by (simp add: platform_wf_def)
  assume "bytesToBase64 P (msgKey P c j) = []"
  then have "btoa P (map (\<lambda>byte. char_of (unat byte)) (msgKey P c j)) = []"
    by (simp add: bytesToBase64_def)
  then have "map (\<lambda>byte. char_of (unat byte)) (msgKey P c j) = []"
    by (rule imp)
  then have "length (msgKey P c j) = 0" by simp
  moreover from assms have "length (msgKey P c j) = 32"
    by (simp add: msgKey_def hmac_length)
  ultimately show False by simp
qed

lemma chainKey_Suc: "chainKey P c (Suc i) = hmacSha256 P (chainKey P c i) (CK_LABEL P)"
  by (simp add: chainKey_def)

lemma deriveLoop_run:
  assumes "i \<le> n" and "\<forall>j \<in> fst ` set sk. j < i"
  shows "deriveLoop P m n i (chainKey P c i) d sk =
           (chainKey P c (Suc n), Some (msgKey P c n),
            sk @ cacheOf P c [i..<min n (i + (m - length sk))])"
  using assms
proof (induction "n - i" arbitrary: i sk d)
  case 0
  then have "i = n" by simp
  then show ?case
    by (simp add: deriveLoop.simps [of P m n n] deriveLoop.simps [of P m n "Suc n"]
                  Let_def chainKey_Suc msgKey_def cacheOf_def)
next
  case (Suc x)
  then have lt: "i < n" and x: "x = n - Suc i" and le: "Suc i \<le> n" by simp_all
  show ?case
  proof (cases "length sk < m")
    case True
    let ?sk = "sk @ [(i, bytesToBase64 P (msgKey P c i))]"
    have fresh: "i \<notin> fst ` set sk" using Suc.prems(2) by auto
    have keys: "\<forall>j \<in> fst ` set ?sk. j < Suc i" using Suc.prems(2) by auto
    have "deriveLoop P m n i (chainKey P c i) d sk =
            deriveLoop P m n (Suc i) (chainKey P c (Suc i)) d ?sk"
      using lt True fresh
      by (simp add: deriveLoop.simps [of P m n i] Let_def chainKey_Suc msgKey_def update_fresh)
    also have "\<dots> = (chainKey P c (Suc n), Some (msgKey P c n),
                     ?sk @ cacheOf P c [Suc i..<min n (Suc i + (m - length ?sk))])"
      by (rule Suc.hyps(1) [OF x le keys])
    also have "?sk @ cacheOf P c [Suc i..<min n (Suc i + (m - length ?sk))] =
               sk @ cacheOf P c [i..<min n (i + (m - length sk))]"
    proof -
      have "min n (Suc i + (m - length ?sk)) = min n (i + (m - length sk))"
        using True by simp
      moreover have "i < min n (i + (m - length sk))" using lt True by simp
      then have "[i..<min n (i + (m - length sk))] = i # [Suc i..<min n (i + (m - length sk))]"
        by (rule upt_conv_Cons)
      ultimately show ?thesis by (simp only: cacheOf_def list.map append_Cons append_Nil append_assoc)
    qed
    finally show ?thesis .
  next
    case False
    have keys: "\<forall>j \<in> fst ` set sk. j < Suc i" using Suc.prems(2) by auto
    have "deriveLoop P m n i (chainKey P c i) d sk =
            deriveLoop P m n (Suc i) (chainKey P c (Suc i)) d sk"
      using lt False
      by (simp add: deriveLoop.simps [of P m n i] Let_def chainKey_Suc)
    also have "\<dots> = (chainKey P c (Suc n), Some (msgKey P c n),
                     sk @ cacheOf P c [Suc i..<min n (Suc i + (m - length sk))])"
      by (rule Suc.hyps(1) [OF x le keys])
    also have "cacheOf P c [Suc i..<min n (Suc i + (m - length sk))] =
               cacheOf P c [i..<min n (i + (m - length sk))]"
      using False by (simp add: cacheOf_def)
    finally show ?thesis .
  qed
qed

lemma demo_wf: "platform_wf demoPlatform"
  by (auto simp add: platform_wf_def demoPlatform_def)

lemma demo_recvCK: "base64ToBytes demoPlatform (recvCK demoSession) = Inr (replicate 32 65)"
  by (simp add: base64ToBytes_def demoPlatform_def demoSession_def)

lemma chainKey_0: "chainKey P c 0 = c"
  by (simp add: chainKey_def)

lemma cacheOf_keys: "map fst (cacheOf P c js) = js"
  by (simp add: cacheOf_def comp_def)

lemma cacheOf_length: "length (cacheOf P c js) = length js"
  by (simp add: cacheOf_def)

lemma cacheOf_lookup:
  "map_of (cacheOf P c js) j = (if j \<in> set js then Some (bytesToBase64 P (msgKey P c j)) else None)"
  by (induction js) (auto simp: cacheOf_def)

lemma deriveReceiveKey_ahead:
  assumes "recvN s \<le> n"
    and "base64ToBytes P (recvCK s) = Inr (chainKey P c (recvN s))"
    and "\<forall>j \<in> fst ` set (skippedKeys s). j < recvN s"
  shows "deriveReceiveKey P s n m =
           Inr \<lparr>messageKey = Some (msgKey P c n),
                nextSession = s\<lparr>recvCK := bytesToBase64 P (chainKey P c (Suc n)),
                                recvN := n + 1,
                                skippedKeys := trimSkipped
                                  (skippedKeys s @
                                   cacheOf P c [recvN s..<min n (recvN s + (m - length (skippedKeys s)))]) m\<rparr>,
                fromCache = False\<rparr>"
  using assms deriveLoop_run [OF assms(1) assms(3), of P m c None]
  by (simp add: deriveReceiveKey_def Let_def)

lemma fresh_59:
  assumes "recvN s = 0" and "skippedKeys s = []" and "base64ToBytes P (recvCK s) = Inr ck0"
  shows "deriveReceiveKey P s 59 50 =
           Inr \<lparr>messageKey = Some (msgKey P ck0 59),
                nextSession = s\<lparr>recvCK := bytesToBase64 P (chainKey P ck0 60),
                                recvN := 60,
                                skippedKeys := cacheOf P ck0 [0..<50]\<rparr>,
                fromCache = False\<rparr>"
proof -
  have "length (cacheOf P ck0 [0..<50]) = 50" by (simp add: cacheOf_length)
  then have "trimSkipped (cacheOf P ck0 [0..<50]) 50 = cacheOf P ck0 [0..<50]"
    by (simp add: trimSkipped_length_le)
  then show ?thesis
    using deriveReceiveKey_ahead [of s 59 P ck0 50] assms
    by (simp add: chainKey_0)
qed



lemma cacheOf_delete: "AList.delete n (cacheOf P c js) = cacheOf P c (filter (\<lambda>j. j \<noteq> n) js)"
  by (induction js) (auto simp: cacheOf_def)

lemma cacheOf_append: "cacheOf P c (xs @ ys) = cacheOf P c xs @ cacheOf P c ys"
  by (simp add: cacheOf_def)

lemma pending_insert_below: "filter (\<lambda>j. j \<noteq> n) (pending R r) = pending (insert n R) r"
  by (auto simp: pending_def intro: filter_cong)

lemma pending_insert_ahead:
  assumes "r \<le> n" and "R \<subseteq> {..<r}"
  shows "pending (insert n R) (Suc n) = pending R r @ [r..<n]"
proof -
  have "[0..<Suc n] = [0..<r] @ [r..<n] @ [n]"
    using assms(1) by (metis le_add_diff_inverse upt_add_eq_append upt_Suc_append zero_le append_assoc)
  moreover have "filter (\<lambda>j. j \<notin> insert n R) [0..<r] = filter (\<lambda>j. j \<notin> R) [0..<r]"
    using assms(1) by (auto intro: filter_cong)
  moreover have "filter (\<lambda>j. j \<notin> insert n R) [r..<n] = [r..<n]"
    using assms(2) by (auto simp: filter_id_conv)
  ultimately show ?thesis by (simp add: pending_def)
qed

lemma sendAll_chain:
  assumes wf: "platform_wf P"
  shows "sendCK s = bytesToBase64 P (chainKey P c i) \<Longrightarrow>
         \<exists>s'. sendAll P s k = Inr (map (msgKey P c) [i..<i + k], s') \<and> sendN s' = sendN s + k"
proof (induction k arbitrary: s i)
  case 0
  then show ?case by simp
next
  case (Suc k)
  let ?s1 = "s\<lparr>sendCK := bytesToBase64 P (chainKey P c (Suc i)), sendN := sendN s + 1\<rparr>"
  have step: "advanceSend P s = Inr (msgKey P c i, ?s1)"
    using Suc.prems b64_roundtrip [OF wf]
    by (simp add: advanceSend_def Let_def msgKey_def chainKey_Suc)
  have "sendCK ?s1 = bytesToBase64 P (chainKey P c (Suc i))" by simp
  from Suc.IH [OF this] obtain s' where
    rest: "sendAll P ?s1 k = Inr (map (msgKey P c) [Suc i..<Suc i + k], s')"
    and n: "sendN s' = sendN ?s1 + k" by blast
  have "[i..<i + Suc k] = i # [Suc i..<Suc i + k]"
    by (simp add: upt_conv_Cons)
  with step rest n show ?case by simp
qed

lemma receive_cached:
  assumes wf: "platform_wf P"
    and "recvN s = r" and "skippedKeys s = cacheOf P c (pending R r)"
    and "n < r" and "n \<notin> R"
  shows "deriveReceiveKey P s n m =
           Inr \<lparr>messageKey = Some (msgKey P c n),
                nextSession = s\<lparr>skippedKeys := cacheOf P c (pending (insert n R) r)\<rparr>,
                fromCache = True\<rparr>"
proof -
  have "n \<in> set (pending R r)" using assms(4,5) by (simp add: pending_def)
  then have "map_of (skippedKeys s) n = Some (bytesToBase64 P (msgKey P c n))"
    using assms(3) by (simp add: cacheOf_lookup)
  then show ?thesis
    using assms(2,3,4) b64_msgKey_nonempty [OF wf, of c n] b64_roundtrip [OF wf, of "msgKey P c n"]
    by (simp add: deriveReceiveKey_def Let_def cacheOf_delete pending_insert_below)
qed

lemma receive_ahead:
  assumes wf: "platform_wf P"
    and r: "recvN s = r" and ck: "recvCK s = bytesToBase64 P (chainKey P c r)"
    and sk: "skippedKeys s = cacheOf P c (pending R r)"
    and le: "r \<le> n" and R: "R \<subseteq> {..<r}"
    and room: "length (pending R r) + (n - r) \<le> 50"
  shows "deriveReceiveKey P s n 50 =
           Inr \<lparr>messageKey = Some (msgKey P c n),
                nextSession = s\<lparr>recvCK := bytesToBase64 P (chainKey P c (Suc n)),
                                recvN := n + 1,
                                skippedKeys := cacheOf P c (pending (insert n R) (Suc n))\<rparr>,
                fromCache = False\<rparr>"
proof -
  have keys: "\<forall>j \<in> fst ` set (skippedKeys s). j < recvN s"
  proof
    fix j assume "j \<in> fst ` set (skippedKeys s)"
    then have "j \<in> set (map fst (skippedKeys s))" by simp
    then have "j \<in> set (pending R r)" using sk by (simp only: cacheOf_keys)
    then show "j < recvN s" using r by (simp add: pending_def)
  qed
  have dec: "base64ToBytes P (recvCK s) = Inr (chainKey P c (recvN s))"
    using ck r b64_roundtrip [OF wf] by simp
  have len: "length (skippedKeys s) = length (pending R r)"
    using sk by (simp add: cacheOf_length)
  have m: "min n (r + (50 - length (skippedKeys s))) = n"
    using room le len by simp
  have app: "skippedKeys s @ cacheOf P c [r..<n] = cacheOf P c (pending (insert n R) (Suc n))"
    using sk by (simp add: pending_insert_ahead [OF le R] cacheOf_append)
  have "length (cacheOf P c (pending (insert n R) (Suc n))) \<le> 50"
    using room le by (simp add: cacheOf_length pending_insert_ahead [OF le R])
  then have trim: "trimSkipped (cacheOf P c (pending (insert n R) (Suc n))) 50 =
                   cacheOf P c (pending (insert n R) (Suc n))"
    by (rule trimSkipped_length_le)
  have "trimSkipped (skippedKeys s @
            cacheOf P c [r..<min n (r + (50 - length (skippedKeys s)))]) 50 =
          cacheOf P c (pending (insert n R) (Suc n))"
    by (simp only: m app trim)
  then show ?thesis
    using deriveReceiveKey_ahead [OF _ dec keys, of n 50] le r by simp
qed

lemma pending_room:
  assumes "distinct ns" and "n \<notin> set ns" and "r \<le> n" and "n < k"
    and R: "R \<subseteq> {..<r}" and part: "R \<union> set (n # ns) = {..<k}"
    and win: "\<forall>c \<in> set ns. n + 1 \<le> c + 50"
  shows "length (pending R r) + (n - r) \<le> 50"
proof -
  let ?lo = "n + 1 - 50"
  have inns: "j \<in> set ns" if "j < k" "j \<notin> R" "j \<noteq> n" for j
    using that part by auto
  have sub: "set (pending R r) \<subseteq> {?lo..<r}"
  proof
    fix j assume "j \<in> set (pending R r)"
    then have j: "j < r" "j \<notin> R" by (simp_all add: pending_def)
    then have "j \<in> set ns" using inns assms(3,4) by simp
    then have "n + 1 \<le> j + 50" using win by blast
    with j show "j \<in> {?lo..<r}" by simp
  qed
  have "distinct (pending R r)" by (simp add: pending_def)
  then have "length (pending R r) = card (set (pending R r))"
    by (simp add: distinct_card)
  also have "\<dots> \<le> card {?lo..<r}" by (rule card_mono [OF finite_atLeastLessThan sub])
  finally have len: "length (pending R r) \<le> r - ?lo" by simp
  show ?thesis
  proof (cases "r = n")
    case True
    with len show ?thesis by simp
  next
    case False
    then have "r < n" using assms(3) by simp
    moreover have "r \<notin> R" using R by auto
    ultimately have "r \<in> set ns" using inns assms(4) by simp
    then have "n + 1 \<le> r + 50" using win by blast
    with len assms(3) show ?thesis by simp
  qed
qed

lemma receiveAll_mirror:
  assumes wf: "platform_wf P"
  shows "recvN s = r \<Longrightarrow> recvCK s = bytesToBase64 P (chainKey P c r) \<Longrightarrow>
         skippedKeys s = cacheOf P c (pending R r) \<Longrightarrow>
         R \<subseteq> {..<r} \<Longrightarrow> r \<le> k \<Longrightarrow> distinct ns \<Longrightarrow> R \<inter> set ns = {} \<Longrightarrow>
         R \<union> set ns = {..<k} \<Longrightarrow> in_window ns \<Longrightarrow>
         \<exists>s'. receiveAll P s ns = Inr (map (\<lambda>n. Some (msgKey P c n)) ns, s') \<and>
              recvN s' = k \<and> skippedKeys s' = []"
proof (induction ns arbitrary: s r R)
  case Nil
  then have "R = {..<k}" by simp
  with Nil.prems(4,5) have rk: "r = k"
    by (metis lessThan_subset_iff le_antisym)
  have "pending R r = []" using \<open>R = {..<k}\<close> rk by (simp add: pending_def)
  with Nil.prems(1,3) rk show ?case by (simp add: cacheOf_def)
next
  case (Cons n ns)
  from Cons.prems have nR: "n \<notin> R" and nns: "n \<notin> set ns" and dist: "distinct ns"
    and nk: "n < k" and win: "\<forall>c \<in> set ns. n + 1 \<le> c + 50" and win': "in_window ns"
    by auto
  have disj: "insert n R \<inter> set ns = {}" using Cons.prems(7) nns by auto
  have part: "insert n R \<union> set ns = {..<k}" using Cons.prems(8) by auto
  show ?case
  proof (cases "n < r")
    case True
    let ?s1 = "s\<lparr>skippedKeys := cacheOf P c (pending (insert n R) r)\<rparr>"
    have step: "deriveReceiveKey P s n MAX_SKIPPED_KEYS =
                  Inr \<lparr>messageKey = Some (msgKey P c n), nextSession = ?s1, fromCache = True\<rparr>"
      using receive_cached [OF wf Cons.prems(1) Cons.prems(3) True nR] by simp
    have "insert n R \<subseteq> {..<r}" using True Cons.prems(4) by simp
    from Cons.IH [of ?s1 r "insert n R", OF _ _ _ this Cons.prems(5) dist disj part win']
      Cons.prems(1,2)
    obtain s' where "receiveAll P ?s1 ns = Inr (map (\<lambda>n. Some (msgKey P c n)) ns, s')"
      and "recvN s' = k" and "skippedKeys s' = []" by auto
    with step show ?thesis by simp
  next
    case False
    then have le: "r \<le> n" by simp
    let ?s1 = "s\<lparr>recvCK := bytesToBase64 P (chainKey P c (Suc n)), recvN := n + 1,
                   skippedKeys := cacheOf P c (pending (insert n R) (Suc n))\<rparr>"
    have room: "length (pending R r) + (n - r) \<le> 50"
      using pending_room [OF dist nns le nk Cons.prems(4) _ win] Cons.prems(8) by simp
    have step: "deriveReceiveKey P s n MAX_SKIPPED_KEYS =
                  Inr \<lparr>messageKey = Some (msgKey P c n), nextSession = ?s1, fromCache = False\<rparr>"
      using receive_ahead [OF wf Cons.prems(1,2,3) le Cons.prems(4) room]
      by (simp add: MAX_SKIPPED_KEYS_def)
    have R1: "insert n R \<subseteq> {..<Suc n}" using le Cons.prems(4) by auto
    have k1: "Suc n \<le> k" using nk by simp
    from Cons.IH [of ?s1 "Suc n" "insert n R", OF _ _ _ R1 k1 dist disj part win']
    obtain s' where "receiveAll P ?s1 ns = Inr (map (\<lambda>n. Some (msgKey P c n)) ns, s')"
      and "recvN s' = k" and "skippedKeys s' = []" by auto
    with step show ?thesis by simp
  qed
qed

text \<open>
  C5. Fresh-session chain mirroring: the chain keys \<open>deriveChainKeys\<close> gives for
  (root, A, B) are those it gives for (root, B, A), swapped: the send chain of one side is
  the receive chain of the other.
\<close>

theorem deriveChainKeys_mirror:
  "fst (deriveChainKeys P rootKey a b) = snd (deriveChainKeys P rootKey b a) \<and>
   snd (deriveChainKeys P rootKey a b) = fst (deriveChainKeys P rootKey b a) \<and>
   fst (deriveChainKeys P rootKey a b) = hmacSha256 P rootKey (stringToBytes P (''send:'' @ a)) \<and>
   snd (deriveChainKeys P rootKey a b) = hmacSha256 P rootKey (stringToBytes P (''send:'' @ b))"
  by (simp add: deriveChainKeys_def)

text \<open>
  C7. Session cache invariant: in every session state reached from a freshly seeded
  session (both counters 0, no skipped keys) by \<open>advanceSend\<close> and \<open>deriveReceiveKey\<close>
  steps with the cap 50, the skipped-key cache has at most 50 entries and every index in
  it is below \<open>recvN\<close>.
\<close>

theorem session_cache_invariant:
  assumes fresh: "sendN s0 = 0 \<and> recvN s0 = 0 \<and> skippedKeys s0 = []"
    and reach: "reachable P s0 s"
  shows "length (skippedKeys s) \<le> 50 \<and> (\<forall>(i, v) \<in> set (skippedKeys s). i < recvN s)"
proof -
  from reach have "cacheInv s"
  proof (induction rule: reachable.induct)
    case reach_init
    from fresh show ?case by (simp add: cacheInv_def)
  next
    case (reach_send s k s')
    then show ?case using cacheInv_advanceSend by blast
  next
    case (reach_recv s n r)
    then show ?case using cacheInv_deriveReceiveKey by (simp add: MAX_SKIPPED_KEYS_def)
  qed
  then show ?thesis by (simp add: cacheInv_def list_all_iff)
qed

theorem session_cache_invariant_witness:
  "sendN demoSession = 0 \<and> recvN demoSession = 0 \<and> skippedKeys demoSession = [] \<and>
   (\<exists>r. deriveReceiveKey demoPlatform demoSession 2 MAX_SKIPPED_KEYS = Inr r \<and>
        reachable demoPlatform demoSession (nextSession r) \<and>
        length (skippedKeys (nextSession r)) \<le> 50 \<and>
        (\<forall>(i, v) \<in> set (skippedKeys (nextSession r)). i < recvN (nextSession r)))"
proof -
  have fresh: "sendN demoSession = 0 \<and> recvN demoSession = 0 \<and> skippedKeys demoSession = []"
    by (simp add: demoSession_def)
  have "recvN demoSession \<le> 2" using fresh by simp
  moreover have "base64ToBytes demoPlatform (recvCK demoSession) =
                   Inr (chainKey demoPlatform (replicate 32 65) (recvN demoSession))"
    using demo_recvCK fresh by (simp add: chainKey_0)
  moreover have "\<forall>j \<in> fst ` set (skippedKeys demoSession). j < recvN demoSession"
    using fresh by simp
  ultimately obtain r where
    r: "deriveReceiveKey demoPlatform demoSession 2 MAX_SKIPPED_KEYS = Inr r"
    using deriveReceiveKey_ahead by blast
  have reach: "reachable demoPlatform demoSession (nextSession r)"
    by (rule reach_recv [OF reach_init r])
  from session_cache_invariant [OF fresh reach] fresh r reach show ?thesis by blast
qed

text \<open>
  C1. Ratchet mirroring under out-of-order arrival: let A and B hold mirrored chain keys
  (the receive chain key of B is the send chain key of A), B freshly seeded. A derives
  \<open>k\<close> send keys with \<open>advanceSend\<close>, for the counters 0 to \<open>k - 1\<close>. B applies
  \<open>deriveReceiveKey\<close> with the cap 50 to these counters in any order of arrival that is
  a permutation of them and in which no counter is ever more than 50 behind \<open>recvN\<close>.
  Then no call fails, the call for each counter returns the key A derived for it, and at
  the end \<open>recvN\<close> of B is \<open>k\<close> and its cache of skipped keys is empty. The order
  2, 0, 3, 1 for \<open>k = 4\<close> is one such order.
\<close>

theorem ratchet_mirroring_out_of_order:
  assumes wf: "platform_wf P"
    and seedA: "sendCK A = bytesToBase64 P ck0"
    and seedB: "recvCK B = sendCK A" "recvN B = 0" "skippedKeys B = []"
    and perm: "distinct ns" "set ns = {0..<k}"
    and win: "in_window ns"
  shows "\<exists>mks A' B'. sendAll P A k = Inr (mks, A') \<and> length mks = k \<and>
           sendN A' = sendN A + k \<and>
           receiveAll P B ns = Inr (map (\<lambda>n. Some (mks ! n)) ns, B') \<and>
           recvN B' = k \<and> skippedKeys B' = []"
proof -
  from sendAll_chain [OF wf, of A ck0 0 k] seedA obtain A' where
    send: "sendAll P A k = Inr (map (msgKey P ck0) [0..<k], A')" "sendN A' = sendN A + k"
    by (auto simp: chainKey_0)
  have set_ns: "set ns = {..<k}" using perm(2) by (simp add: atLeast0LessThan)
  have dist: "distinct ns" by (rule perm(1))
  have "skippedKeys B = cacheOf P ck0 (pending {} 0)" using seedB by (simp add: pending_def cacheOf_def)
  from receiveAll_mirror [OF wf seedB(2) _ this, of k ns] seedA seedB(1) set_ns dist win
  obtain B' where recv: "receiveAll P B ns = Inr (map (\<lambda>n. Some (msgKey P ck0 n)) ns, B')"
    and fin: "recvN B' = k" "skippedKeys B' = []"
    by (auto simp: chainKey_0)
  have "map (\<lambda>n. Some (msgKey P ck0 n)) ns = map (\<lambda>n. Some (map (msgKey P ck0) [0..<k] ! n)) ns"
    using set_ns by (auto intro!: map_cong)
  with send recv fin show ?thesis by auto
qed

theorem ratchet_mirroring_out_of_order_witness:
  "platform_wf demoPlatform \<and> sendCK demoSession = bytesToBase64 demoPlatform (replicate 32 65) \<and>
   recvCK demoSession = sendCK demoSession \<and> recvN demoSession = 0 \<and>
   skippedKeys demoSession = [] \<and> distinct [2, 0, 3, 1 :: nat] \<and>
   set [2, 0, 3, 1] = {0..<4 :: nat} \<and> in_window [2, 0, 3, 1] \<and>
   (\<exists>mks A' B'. sendAll demoPlatform demoSession 4 = Inr (mks, A') \<and> length mks = 4 \<and>
      sendN A' = sendN demoSession + 4 \<and>
      receiveAll demoPlatform demoSession [2, 0, 3, 1] =
        Inr ([Some (mks ! 2), Some (mks ! 0), Some (mks ! 3), Some (mks ! 1)], B') \<and>
      recvN B' = 4 \<and> skippedKeys B' = [])"
proof -
  have a: "sendCK demoSession = bytesToBase64 demoPlatform (replicate 32 65)"
    by code_simp
  have b: "recvCK demoSession = sendCK demoSession" "recvN demoSession = 0"
    "skippedKeys demoSession = []"
    by (simp_all add: demoSession_def)
  have p: "distinct [2, 0, 3, 1 :: nat]" "set [2, 0, 3, 1] = {0..<4 :: nat}" by auto
  have w: "in_window [2, 0, 3, 1]" by simp
  from ratchet_mirroring_out_of_order [OF demo_wf a b p w] demo_wf a b p w
  show ?thesis by simp
qed

text \<open>
  C2, as the code has it. From a fresh session (\<open>recvN = 0\<close>, no skipped keys),
  \<open>deriveReceiveKey\<close> at \<open>n = 59\<close> with the cap 50 returns the key of counter 59, sets
  \<open>recvN\<close> to 60 and leaves a cache of exactly 50 entries: those of the earliest indices
  0 to 49. The loop stops storing once the cache is full, so the indices 50 to 58 are the
  ones without an entry, and \<open>trimSkipped\<close> finds nothing to drop.
\<close>

theorem skipped_cache_keeps_earliest:
  assumes "recvN s = 0" and "skippedKeys s = []" and "base64ToBytes P (recvCK s) = Inr ck0"
  shows "\<exists>r. deriveReceiveKey P s 59 MAX_SKIPPED_KEYS = Inr r \<and>
             messageKey r = Some (msgKey P ck0 59) \<and>
             recvN (nextSession r) = 60 \<and>
             length (skippedKeys (nextSession r)) = 50 \<and>
             map fst (skippedKeys (nextSession r)) = [0..<50] \<and>
             (\<forall>i \<in> {50..58}. map_of (skippedKeys (nextSession r)) i = None)"
proof -
  have "map_of (cacheOf P ck0 [0..<50]) i = None" if "i \<in> {50..58}" for i
    using that by (simp add: cacheOf_lookup)
  then show ?thesis
    using fresh_59 [OF assms] by (simp add: MAX_SKIPPED_KEYS_def cacheOf_keys cacheOf_length)
qed

theorem skipped_cache_keeps_earliest_witness:
  "recvN demoSession = 0 \<and> skippedKeys demoSession = [] \<and>
   base64ToBytes demoPlatform (recvCK demoSession) = Inr (replicate 32 65) \<and>
   (\<exists>r. deriveReceiveKey demoPlatform demoSession 59 MAX_SKIPPED_KEYS = Inr r \<and>
        messageKey r = Some (msgKey demoPlatform (replicate 32 65) 59) \<and>
        recvN (nextSession r) = 60 \<and>
        length (skippedKeys (nextSession r)) = 50 \<and>
        map fst (skippedKeys (nextSession r)) = [0..<50] \<and>
        (\<forall>i \<in> {50..58}. map_of (skippedKeys (nextSession r)) i = None))"
proof -
  have a: "recvN demoSession = 0" and b: "skippedKeys demoSession = []"
    by (simp_all add: demoSession_def)
  from a b demo_recvCK skipped_cache_keeps_earliest [OF a b demo_recvCK]
  show ?thesis by blast
qed

text \<open>
  C2, as the claim states it (the indices 0 to 8 absent, the largest indices kept), fails:
  on the demonstration platform the cache after the call holds exactly the indices
  0 to 49.
\<close>

theorem newer_biased_eviction_counterexample:
  "map_sum id (map fst \<circ> skippedKeys \<circ> nextSession)
     (deriveReceiveKey demoPlatform demoSession 59 MAX_SKIPPED_KEYS) = Inr [0..<50]"
proof -
  have a: "recvN demoSession = 0" and b: "skippedKeys demoSession = []"
    by (simp_all add: demoSession_def)
  show ?thesis
    using fresh_59 [OF a b demo_recvCK]
    by (simp add: MAX_SKIPPED_KEYS_def cacheOf_keys)
qed

section \<open>Properties of the engine\<close>

lemma sort_pair_sym: "sort [a, b] = sort [b, a]" for a b :: string
  by auto

lemma demo_cid: "conversationIdFromPubKeys demoPlatform ''alice'' ''bob'' = ''alice:bob''"
  by (simp add: conversationIdFromPubKeys_def demoPlatform_def stripHexPrefix_def)

lemma ensureSession_effects:
  assumes "ensureSession P cid k peer w = Inr (session, w1)"
  shows "published w1 = published w \<and> messages w1 = messages w \<and> chatKey w1 = chatKey w \<and>
         idb_messages w1 = idb_messages w \<and> chats w1 = chats w \<and> requests w1 = requests w \<and>
         ((sessions w cid \<noteq> None \<or> idb_sessions_dm w cid \<noteq> None) \<longrightarrow> w1 = w) \<and>
         (sessions w cid = None \<and> idb_sessions_dm w cid = None \<longrightarrow>
            sendN session = 0 \<and> recvN session = 0 \<and> skippedKeys session = [] \<and>
            sessions w1 = (sessions w)(cid \<mapsto> session) \<and>
            idb_sessions_dm w1 = (idb_sessions_dm w)(cid \<mapsto> session))"
  using assms
  by (auto simp: ensureSession_def setSession_def Let_def
           split: option.splits sum.splits prod.splits if_splits)

lemma keyMismatchMessage_effects:
  "sessions (keyMismatchMessage D chatId w) = sessions w \<and>
   idb_sessions_dm (keyMismatchMessage D chatId w) = idb_sessions_dm w \<and>
   published (keyMismatchMessage D chatId w) = published w \<and>
   chats (keyMismatchMessage D chatId w) = chats w \<and>
   messages (keyMismatchMessage D chatId w) =
     (messages w)(chatId \<mapsto> sort_key msg_timestamp
        (messageListForChat (messages w) chatId @
         [(createSystemMessage D chatId ''Key mismatch. Rekey to continue.'')
            \<lparr>msg_keyMismatch := Some True\<rparr>]))"
  by (simp add: keyMismatchMessage_def setMessage_def updateMessageList_def Let_def)

lemma deriveReceiveKey_absent:
  assumes "n < recvN session" and "map_of (skippedKeys session) n = None"
  shows "deriveReceiveKey P session n m =
           Inr \<lparr>messageKey = None, nextSession = session, fromCache = False\<rparr>"
  using assms by (simp add: deriveReceiveKey_def)

lemma handle_no_key:
  assumes "Some fromPubKey \<noteq> chatKey w"
      "find (\<lambda>item. chat_id item = chatId) (chats w) = Some chat"
    and "ensureSession P chatId Dm fromPubKey w = Inr (session, w1)"
    and "deriveReceiveKey P session n MAX_SKIPPED_KEYS = Inr r" "messageKey r = None"
  shows "handleEncryptedMessage P D
           (DmMessageEnv chatId messageId (Some fromPubKey) n nonce64 ct64 ts) w =
         Returned (keyMismatchMessage D chatId w1)"
  using assms by simp

lemma handle_open_fails:
  assumes "Some fromPubKey \<noteq> chatKey w"
      "find (\<lambda>item. chat_id item = chatId) (chats w) = Some chat"
    and "ensureSession P chatId Dm fromPubKey w = Inr (session, w1)"
    and "deriveReceiveKey P session n MAX_SKIPPED_KEYS = Inr r" "messageKey r = Some mk"
    and "base64ToBytes P nonce64 = Inr nonce" "base64ToBytes P ct64 = Inr ct"
    and "nacl_secretbox_open P ct nonce mk = Inr None"
  shows "handleEncryptedMessage P D
           (DmMessageEnv chatId messageId (Some fromPubKey) n nonce64 ct64 ts) w =
         Returned (keyMismatchMessage D chatId w1)"
  using assms by simp

lemma ack_only_after_success:
  assumes "worldOf (handleEncryptedMessage P D
             (DmMessageEnv chatId messageId (Some fromPubKey) n nonce64 ct64 ts) w) = Some w'"
    and "published w' \<noteq> published w"
  shows "\<exists>session w1 r mk nonce ct decrypted pk.
           ensureSession P chatId Dm fromPubKey w = Inr (session, w1) \<and>
           deriveReceiveKey P session n MAX_SKIPPED_KEYS = Inr r \<and>
           messageKey r = Some mk \<and>
           base64ToBytes P nonce64 = Inr nonce \<and> base64ToBytes P ct64 = Inr ct \<and>
           nacl_secretbox_open P ct nonce mk = Inr (Some decrypted) \<and>
           base58ToBytes P fromPubKey = Inr pk \<and>
           sessions w' chatId = Some (nextSession r) \<and>
           idb_sessions_dm w' (conversationId (nextSession r)) = Some (nextSession r) \<and>
           published w' = published w @
             [(inboxTopic P pk, DmAckEnv chatId messageId (chatKey w) fromPubKey (now D 0))]"
proof (cases "Some fromPubKey = chatKey w")
  case True
  have "handleEncryptedMessage P D
          (DmMessageEnv chatId messageId (Some fromPubKey) n nonce64 ct64 ts) w = Returned w"
    by (subst handleEncryptedMessage.simps) (simp add: True)
  with assms show ?thesis by simp
next
  case ne: False
  show ?thesis
  proof (cases "find (\<lambda>item. chat_id item = chatId) (chats w)")
    case None
    with ne assms show ?thesis by simp
  next
    case (Some chat)
    show ?thesis
    proof (cases "ensureSession P chatId Dm fromPubKey w")
      case (Inl e)
      with ne Some assms show ?thesis by simp
    next
      case (Inr p)
      obtain session w1 where p: "p = (session, w1)" by (cases p)
      note eff = ensureSession_effects [OF Inr [unfolded p]]
      have km: "published (keyMismatchMessage D chatId w1) = published w"
        using eff keyMismatchMessage_effects by simp
      from ne Some Inr p assms eff km show ?thesis
        by (auto simp: Let_def setSession_def publishPayload_def
                 split: sum.splits option.splits if_splits)
    qed
  qed
qed

lemma demo_ensureSession:
  "ensureSession demoPlatform ''alice:bob'' Dm ''bob'' demoWorld = Inr (demoChatSession, demoWorld)"
  by (simp add: ensureSession_def demoWorld_def)

lemma demo_receive_0:
  "deriveReceiveKey demoPlatform demoChatSession 0 MAX_SKIPPED_KEYS =
     Inr \<lparr>messageKey = Some (msgKey demoPlatform (replicate 32 65) 0),
          nextSession = demoChatSession
            \<lparr>recvCK := bytesToBase64 demoPlatform (chainKey demoPlatform (replicate 32 65) 1),
             recvN := 1, skippedKeys := []\<rparr>,
          fromCache = False\<rparr>"
proof -
  have "base64ToBytes demoPlatform (recvCK demoChatSession) =
          Inr (chainKey demoPlatform (replicate 32 65) (recvN demoChatSession))"
    using demo_recvCK by (simp add: demoChatSession_def demoSession_def chainKey_0)
  from deriveReceiveKey_ahead [OF _ this, of 0 MAX_SKIPPED_KEYS]
  show ?thesis
    by (simp add: demoChatSession_def demoSession_def trimSkipped_def cacheOf_def)
qed

text \<open>
  C4. Conversation-identifier symmetry: \<open>conversationIdFromPubKeys\<close> gives the same
  identifier for (A, B) and for (B, A), for all key strings A and B.
\<close>

theorem conversationId_symmetric:
  "conversationIdFromPubKeys P a b = conversationIdFromPubKeys P b a"
  by (simp only: conversationIdFromPubKeys_def sort_pair_sym [of a b])

text \<open>
  C10. An inbound \<open>dm_message\<close> whose conversation identifier matches no stored chat is
  dropped: the handler returns and the whole world is unchanged (no session, no system
  message, no stored message, no \<open>dm_ack\<close>).
\<close>

theorem unknown_conversation_dropped:
  assumes "find (\<lambda>item. chat_id item = chatId) (chats w) = None"
  shows "handleEncryptedMessage P D
           (DmMessageEnv chatId messageId (Some fromPubKey) n nonce64 ct64 ts) w = Returned w \<and>
         handleIncoming P D
           (DmMessageEnv chatId messageId (Some fromPubKey) n nonce64 ct64 ts) w = Returned w"
  using assms by (auto simp: handleIncoming_def split: option.splits)

theorem unknown_conversation_dropped_witness:
  "find (\<lambda>item. chat_id item = ''carol:dave'') (chats demoWorld) = None \<and>
   handleEncryptedMessage demoPlatform demoDraws
     (DmMessageEnv ''carol:dave'' ''m1'' (Some ''carol'') 0 ''bm9uY2U='' ''Y3Q='' 5) demoWorld
     = Returned demoWorld \<and>
   handleIncoming demoPlatform demoDraws
     (DmMessageEnv ''carol:dave'' ''m1'' (Some ''carol'') 0 ''bm9uY2U='' ''Y3Q='' 5) demoWorld
     = Returned demoWorld"
proof -
  have h: "find (\<lambda>item. chat_id item = ''carol:dave'') (chats demoWorld) = None"
    by (simp add: demoWorld_def)
  from unknown_conversation_dropped [OF h] h show ?thesis by blast
qed

text \<open>
  C9. Acceptance idempotency: with the identity unlocked, a \<open>chat_request\<close> from a peer
  whose key decodes as base58 and with whom an accepted chat of the corresponding
  conversation identifier exists makes the handler publish exactly one \<open>chat_accept\<close>,
  to that peer's inbox topic, and return; nothing else in the world changes: no request
  is stored, and the requests, chats and sessions are as before.
\<close>

theorem accepted_chat_request_reemits_accept:
  assumes unlocked: "chatKey w = Some me" "me \<noteq> []" "unlockedSecretKey w = Some secretKey"
      "identity w = Some ident"
    and accepted: "\<exists>c \<in> set (chats w). chat_id c = conversationIdFromPubKeys P me fromPubKey \<and>
                     chat_accepted c"
    and peer: "base58ToBytes P fromPubKey = Inr pk"
  shows "handleIncoming P D (ChatRequestEnv requestId fromPubKey toPubKey nonce64 ct64 ts) w =
           Returned (w\<lparr>published := published w @
             [(inboxTopic P pk,
               ChatAcceptEnv requestId me fromPubKey
                 (conversationIdFromPubKeys P me fromPubKey) (now D 0))]\<rparr>)"
proof -
  from accepted obtain c where
    "find (\<lambda>item. chat_id item = conversationIdFromPubKeys P me fromPubKey \<and> chat_accepted item)
       (chats w) = Some c"
    by (cases "find (\<lambda>item. chat_id item = conversationIdFromPubKeys P me fromPubKey \<and>
                  chat_accepted item) (chats w)") (auto simp: find_None_iff)
  with unlocked peer show ?thesis
    by (simp add: handleIncoming_def handleChatRequest_def absent_def publishPayload_def Let_def)
qed

theorem accepted_chat_request_reemits_accept_witness:
  "chatKey demoWorld = Some ''alice'' \<and> ''alice'' \<noteq> [] \<and>
   unlockedSecretKey demoWorld = Some (replicate 32 7) \<and>
   identity demoWorld \<noteq> None \<and>
   (\<exists>c \<in> set (chats demoWorld).
      chat_id c = conversationIdFromPubKeys demoPlatform ''alice'' ''bob'' \<and> chat_accepted c) \<and>
   base58ToBytes demoPlatform ''bob'' = Inr (map of_char ''bob'') \<and>
   handleIncoming demoPlatform demoDraws
     (ChatRequestEnv ''r1'' ''bob'' ''alice'' ''bm9uY2U='' ''aGk='' 7) demoWorld =
     Returned (demoWorld\<lparr>published := published demoWorld @
       [(inboxTopic demoPlatform (map of_char ''bob''),
         ChatAcceptEnv ''r1'' ''alice'' ''bob''
           (conversationIdFromPubKeys demoPlatform ''alice'' ''bob'') (now demoDraws 0))]\<rparr>)"
proof -
  have a: "chatKey demoWorld = Some ''alice''" "''alice'' \<noteq> []"
    "unlockedSecretKey demoWorld = Some (replicate 32 7)"
    by (simp_all add: demoWorld_def)
  obtain ident where i: "identity demoWorld = Some ident" by (simp add: demoWorld_def)
  have c: "\<exists>c \<in> set (chats demoWorld).
      chat_id c = conversationIdFromPubKeys demoPlatform ''alice'' ''bob'' \<and> chat_accepted c"
    by (simp add: demo_cid demoWorld_def)
  have p: "base58ToBytes demoPlatform ''bob'' = Inr (map of_char ''bob'')"
    by (simp add: base58ToBytes_def demoPlatform_def)
  from accepted_chat_request_reemits_accept [OF a i c p] a i c p show ?thesis by simp
qed

text \<open>
  C3. Receive-failure atomicity for an inbound \<open>dm_message\<close> that reaches the ratchet
  (it is not an echo of one's own message, its chat is known, and \<open>ensureSession\<close> gave
  a session). When the receive key is absent (the counter is below \<open>recvN\<close> and has no
  cached entry) or \<open>secretbox.open\<close> returns \<open>null\<close>, the handler returns; the session
  stores, in memory and in the database, are as \<open>ensureSession\<close> left them (unchanged when
  the session was stored already, and otherwise holding the freshly seeded session, never
  the advanced one); the system message "Key mismatch. Rekey to continue." with
  \<open>keyMismatch = true\<close> has joined the conversation; and nothing is published. Whenever
  the handler does publish, the key was derived, the box opened, the advanced session is
  in both stores, and the one publication is the \<open>dm_ack\<close> to the sender's inbox.
\<close>

theorem receive_failure_atomic:
  assumes gate: "Some fromPubKey \<noteq> chatKey w"
      "find (\<lambda>item. chat_id item = chatId) (chats w) = Some chat"
    and sess: "ensureSession P chatId Dm fromPubKey w = Inr (session, w1)"
  shows
    "((n < recvN session \<and> map_of (skippedKeys session) n = None) \<or>
      (\<exists>r mk nonce ct.
         deriveReceiveKey P session n MAX_SKIPPED_KEYS = Inr r \<and> messageKey r = Some mk \<and>
         base64ToBytes P nonce64 = Inr nonce \<and> base64ToBytes P ct64 = Inr ct \<and>
         nacl_secretbox_open P ct nonce mk = Inr None)
      \<longrightarrow>
      (\<exists>w' km.
         handleEncryptedMessage P D
           (DmMessageEnv chatId messageId (Some fromPubKey) n nonce64 ct64 ts) w = Returned w' \<and>
         sessions w' = sessions w1 \<and> idb_sessions_dm w' = idb_sessions_dm w1 \<and>
         ((sessions w chatId \<noteq> None \<or> idb_sessions_dm w chatId \<noteq> None) \<longrightarrow>
            sessions w' = sessions w \<and> idb_sessions_dm w' = idb_sessions_dm w) \<and>
         (sessions w chatId = None \<and> idb_sessions_dm w chatId = None \<longrightarrow>
            sessions w' = (sessions w)(chatId \<mapsto> session) \<and>
            idb_sessions_dm w' = (idb_sessions_dm w)(chatId \<mapsto> session) \<and>
            sendN session = 0 \<and> recvN session = 0 \<and> skippedKeys session = []) \<and>
         published w' = published w \<and>
         msg_type km = Kind_system \<and>
         msg_body km = Some ''Key mismatch. Rekey to continue.'' \<and>
         msg_keyMismatch km = Some True \<and>
         messages w' = (messages w)(chatId \<mapsto>
           sort_key msg_timestamp (messageListForChat (messages w) chatId @ [km])))) \<and>
     (\<forall>w'. worldOf (handleEncryptedMessage P D
                (DmMessageEnv chatId messageId (Some fromPubKey) n nonce64 ct64 ts) w) = Some w' \<and>
            published w' \<noteq> published w
        \<longrightarrow>
        (\<exists>r mk nonce ct decrypted pk.
           deriveReceiveKey P session n MAX_SKIPPED_KEYS = Inr r \<and>
           messageKey r = Some mk \<and>
           base64ToBytes P nonce64 = Inr nonce \<and> base64ToBytes P ct64 = Inr ct \<and>
           nacl_secretbox_open P ct nonce mk = Inr (Some decrypted) \<and>
           base58ToBytes P fromPubKey = Inr pk \<and>
           sessions w' chatId = Some (nextSession r) \<and>
           idb_sessions_dm w' (conversationId (nextSession r)) = Some (nextSession r) \<and>
           published w' = published w @
             [(inboxTopic P pk, DmAckEnv chatId messageId (chatKey w) fromPubKey (now D 0))]))"
proof (intro conjI impI allI)
  let ?H = "handleEncryptedMessage P D
              (DmMessageEnv chatId messageId (Some fromPubKey) n nonce64 ct64 ts) w"
  let ?km = "(createSystemMessage D chatId ''Key mismatch. Rekey to continue.'')
               \<lparr>msg_keyMismatch := Some True\<rparr>"
  note eff = ensureSession_effects [OF sess]
  note kme = keyMismatchMessage_effects [of D chatId w1]
  assume fail: "(n < recvN session \<and> map_of (skippedKeys session) n = None) \<or>
      (\<exists>r mk nonce ct.
         deriveReceiveKey P session n MAX_SKIPPED_KEYS = Inr r \<and> messageKey r = Some mk \<and>
         base64ToBytes P nonce64 = Inr nonce \<and> base64ToBytes P ct64 = Inr ct \<and>
         nacl_secretbox_open P ct nonce mk = Inr None)"
  have ret: "?H = Returned (keyMismatchMessage D chatId w1)"
    using fail
  proof (elim disjE exE conjE)
    assume "n < recvN session" "map_of (skippedKeys session) n = None"
    from deriveReceiveKey_absent [OF this, of P MAX_SKIPPED_KEYS]
    show ?thesis by (rule handle_no_key [OF gate sess]) simp
  next
    fix r mk nonce ct
    assume "deriveReceiveKey P session n MAX_SKIPPED_KEYS = Inr r" "messageKey r = Some mk"
      "base64ToBytes P nonce64 = Inr nonce" "base64ToBytes P ct64 = Inr ct"
      "nacl_secretbox_open P ct nonce mk = Inr None"
    then show ?thesis by (rule handle_open_fails [OF gate sess])
  qed
  have "msg_type ?km = Kind_system \<and>
        msg_body ?km = Some ''Key mismatch. Rekey to continue.'' \<and>
        msg_keyMismatch ?km = Some True"
    by (simp add: createSystemMessage_def)
  with ret eff kme
  show "\<exists>w' km. ?H = Returned w' \<and>
         sessions w' = sessions w1 \<and> idb_sessions_dm w' = idb_sessions_dm w1 \<and>
         ((sessions w chatId \<noteq> None \<or> idb_sessions_dm w chatId \<noteq> None) \<longrightarrow>
            sessions w' = sessions w \<and> idb_sessions_dm w' = idb_sessions_dm w) \<and>
         (sessions w chatId = None \<and> idb_sessions_dm w chatId = None \<longrightarrow>
            sessions w' = (sessions w)(chatId \<mapsto> session) \<and>
            idb_sessions_dm w' = (idb_sessions_dm w)(chatId \<mapsto> session) \<and>
            sendN session = 0 \<and> recvN session = 0 \<and> skippedKeys session = []) \<and>
         published w' = published w \<and>
         msg_type km = Kind_system \<and>
         msg_body km = Some ''Key mismatch. Rekey to continue.'' \<and>
         msg_keyMismatch km = Some True \<and>
         messages w' = (messages w)(chatId \<mapsto>
           sort_key msg_timestamp (messageListForChat (messages w) chatId @ [km]))"
    by (intro exI [of _ "keyMismatchMessage D chatId w1"] exI [of _ ?km]) auto
next
  fix w'
  assume "worldOf (handleEncryptedMessage P D
                (DmMessageEnv chatId messageId (Some fromPubKey) n nonce64 ct64 ts) w) = Some w' \<and>
            published w' \<noteq> published w"
  then show "\<exists>r mk nonce ct decrypted pk.
           deriveReceiveKey P session n MAX_SKIPPED_KEYS = Inr r \<and>
           messageKey r = Some mk \<and>
           base64ToBytes P nonce64 = Inr nonce \<and> base64ToBytes P ct64 = Inr ct \<and>
           nacl_secretbox_open P ct nonce mk = Inr (Some decrypted) \<and>
           base58ToBytes P fromPubKey = Inr pk \<and>
           sessions w' chatId = Some (nextSession r) \<and>
           idb_sessions_dm w' (conversationId (nextSession r)) = Some (nextSession r) \<and>
           published w' = published w @
             [(inboxTopic P pk, DmAckEnv chatId messageId (chatKey w) fromPubKey (now D 0))]"
    using ack_only_after_success [of P D chatId messageId fromPubKey n nonce64 ct64 ts w w'] sess
    by auto
qed

theorem receive_failure_atomic_witness:
  "Some ''bob'' \<noteq> chatKey demoWorld \<and>
   find (\<lambda>item. chat_id item = ''alice:bob'') (chats demoWorld) = Some (hd (chats demoWorld)) \<and>
   ensureSession demoPlatform ''alice:bob'' Dm ''bob'' demoWorld = Inr (demoChatSession, demoWorld) \<and>
   (\<exists>r mk nonce ct.
      deriveReceiveKey demoPlatform demoChatSession 0 MAX_SKIPPED_KEYS = Inr r \<and>
      messageKey r = Some mk \<and>
      base64ToBytes demoPlatform ''nonce'' = Inr nonce \<and> base64ToBytes demoPlatform [] = Inr ct \<and>
      nacl_secretbox_open demoPlatform ct nonce mk = Inr None) \<and>
   (\<exists>w' km.
      handleEncryptedMessage demoPlatform demoDraws
        (DmMessageEnv ''alice:bob'' ''m1'' (Some ''bob'') 0 ''nonce'' [] 5) demoWorld = Returned w' \<and>
      sessions w' = sessions demoWorld \<and> idb_sessions_dm w' = idb_sessions_dm demoWorld \<and>
      published w' = published demoWorld \<and>
      msg_type km = Kind_system \<and>
      msg_body km = Some ''Key mismatch. Rekey to continue.'' \<and>
      msg_keyMismatch km = Some True \<and>
      messages w' = (messages demoWorld)(''alice:bob'' \<mapsto>
        sort_key msg_timestamp (messageListForChat (messages demoWorld) ''alice:bob'' @ [km])))"
proof -
  have g1: "Some ''bob'' \<noteq> chatKey demoWorld" by (simp add: demoWorld_def)
  have g2: "find (\<lambda>item. chat_id item = ''alice:bob'') (chats demoWorld) =
              Some (hd (chats demoWorld))"
    by (simp add: demoWorld_def)
  have "length (msgKey demoPlatform (replicate 32 65) 0) = 32"
    using demo_wf by (simp add: msgKey_def hmac_length)
  then have "msgKey demoPlatform (replicate 32 65) 0 \<noteq> []" by auto
  then have op: "nacl_secretbox_open demoPlatform [] (map of_char ''nonce'')
                   (msgKey demoPlatform (replicate 32 65) 0) = Inr None"
    by (simp add: demoPlatform_def)
  have fail: "\<exists>r mk nonce ct.
      deriveReceiveKey demoPlatform demoChatSession 0 MAX_SKIPPED_KEYS = Inr r \<and>
      messageKey r = Some mk \<and>
      base64ToBytes demoPlatform ''nonce'' = Inr nonce \<and> base64ToBytes demoPlatform [] = Inr ct \<and>
      nacl_secretbox_open demoPlatform ct nonce mk = Inr None"
    using demo_receive_0 op by (simp add: base64ToBytes_def demoPlatform_def)
  have stored: "sessions demoWorld ''alice:bob'' \<noteq> None" by (simp add: demoWorld_def)
  from receive_failure_atomic [OF g1 g2 demo_ensureSession,
      where n = 0 and ?nonce64.0 = "''nonce''" and ?ct64.0 = "[]" and D = demoDraws
        and messageId = "''m1''" and ts = 5]
    fail stored
  have "\<exists>w' km.
      handleEncryptedMessage demoPlatform demoDraws
        (DmMessageEnv ''alice:bob'' ''m1'' (Some ''bob'') 0 ''nonce'' [] 5) demoWorld = Returned w' \<and>
      sessions w' = sessions demoWorld \<and> idb_sessions_dm w' = idb_sessions_dm demoWorld \<and>
      published w' = published demoWorld \<and>
      msg_type km = Kind_system \<and>
      msg_body km = Some ''Key mismatch. Rekey to continue.'' \<and>
      msg_keyMismatch km = Some True \<and>
      messages w' = (messages demoWorld)(''alice:bob'' \<mapsto>
        sort_key msg_timestamp (messageListForChat (messages demoWorld) ''alice:bob'' @ [km]))"
    by blast
  with g1 g2 demo_ensureSession fail show ?thesis by blast
qed















text \<open>Each send function is its first part followed by its second.\<close>

lemma sendEventMessage_split:
  "sendEventMessage P D chat eventPayload messageId w =
     (case sendEventMessage_prepare P D chat eventPayload messageId w of
        Inl out \<Rightarrow> out
      | Inr (pr, w1) \<Rightarrow> Returned (sendEventMessage_commit pr w1))"
  by (simp add: sendEventMessage_def sendEventMessage_prepare_def sendEventMessage_commit_def
                Let_def split: option.splits sum.splits prod.splits)

lemma sendMessage_split:
  "sendMessage P D chatId body replyTo w =
     (case sendMessage_prepare P D chatId body replyTo w of
        Inl out \<Rightarrow> out
      | Inr (pr, w1) \<Rightarrow> Returned (sendMessage_commit D body replyTo pr w1))"
  by (auto simp add: sendMessage_def sendMessage_prepare_def sendMessage_commit_def
                Let_def split: option.splits sum.splits prod.splits)










section \<open>Properties of the passphrase encryption\<close>

lemma hmacKeyBlock_padded:
  assumes "length k + j \<le> 64"
  shows "hmacKeyBlock P (k @ replicate j 0) = hmacKeyBlock P k"
proof -
  have n: "j + (64 - (length k + j)) = 64 - length k" using assms by arith
  have "replicate j (0 :: 8 word) @ replicate (64 - (length k + j)) 0 =
        replicate (j + (64 - (length k + j))) 0"
    by (simp only: replicate_add)
  then have pad: "replicate j (0 :: 8 word) @ replicate (64 - (length k + j)) 0 =
        replicate (64 - length k) 0"
    by (simp only: n)
  have a: "\<not> 64 < length (k @ replicate j (0 :: 8 word))" using assms by simp
  have b: "\<not> 64 < length k" using assms by simp
  have "hmacKeyBlock P (k @ replicate j 0) =
          (k @ replicate j 0) @ replicate (64 - length (k @ replicate j (0 :: 8 word))) 0"
    unfolding hmacKeyBlock_def Let_def using a by (simp only: if_False)
  also have "\<dots> = k @ (replicate j 0 @ replicate (64 - (length k + j)) 0)"
    by simp
  also have "\<dots> = k @ replicate (64 - length k) 0" by (simp only: pad)
  also have "\<dots> = hmacKeyBlock P k"
    unfolding hmacKeyBlock_def Let_def using b by (simp only: if_False)
  finally show ?thesis .
qed

lemma pbkdf2_key_block:
  assumes "hmacKeyBlock P k = hmacKeyBlock P k'"
  shows "pbkdf2 P k salt c n = pbkdf2 P k' salt c n"
proof -
  have "hmac P k = hmac P k'" using assms by (auto simp: hmac_def)
  then show ?thesis by (simp add: pbkdf2_def)
qed

lemma decrypt_encrypt:
  assumes wf: "platform_wf P"
  shows "decryptWithPassphrase P (encryptWithPassphrase P salt iv x p) p' =
           (case aes_gcm_decrypt P (deriveAesKeyBytes P p' salt) iv
                   (aes_gcm_encrypt P (deriveAesKeyBytes P p salt) iv x) of
              None \<Rightarrow> Inl OperationError
            | Some y \<Rightarrow> Inr y)"
  using b64_roundtrip [OF wf]
  by (simp add: decryptWithPassphrase_def encryptWithPassphrase_def Let_def)

lemma decrypt_padded:
  assumes wf: "platform_wf P" and aead: "aead_correct P"
    and pad: "stringToBytes P p' = stringToBytes P p @ replicate j 0"
    and len: "length (stringToBytes P p') \<le> 64"
  shows "decryptWithPassphrase P (encryptWithPassphrase P salt iv x p) p' = Inr x"
proof -
  have "hmacKeyBlock P (stringToBytes P p') = hmacKeyBlock P (stringToBytes P p)"
    using hmacKeyBlock_padded [of "stringToBytes P p" j P] pad len by simp
  then have "pbkdf2 P (stringToBytes P p') salt c n = pbkdf2 P (stringToBytes P p) salt c n"
    for c n by (rule pbkdf2_key_block)
  then have "deriveAesKeyBytes P p' salt = deriveAesKeyBytes P p salt"
    by (simp only: deriveAesKeyBytes_def)
  with aead show ?thesis
    by (simp add: decrypt_encrypt [OF wf] aead_correct_def)
qed

lemma demo_aead: "aead_correct demoPlatform"
  by (simp add: aead_correct_def demoPlatform_def)

text \<open>
  C8, as the code has it. On a platform where \<open>atob\<close> undoes \<open>btoa\<close> and AES-GCM opens
  what it sealed, decrypting with the passphrase of the encryption returns the plaintext,
  for every plaintext, passphrase, salt and IV. With another passphrase the result is
  that of AES-GCM under the key derived from it and the stored salt: an error thrown by
  the primitive when it rejects the ciphertext, and the plaintext when the other
  passphrase derives the same key, as it does when its bytes are those of the first
  followed by zero bytes, at most 64 in all, since HMAC pads its key with zero bytes.
\<close>

theorem passphrase_roundtrip:
  assumes wf: "platform_wf P" and aead: "aead_correct P"
  shows "decryptWithPassphrase P (encryptWithPassphrase P salt iv x p) p = Inr x \<and>
         (stringToBytes P p' = stringToBytes P p @ replicate j 0 \<and>
          length (stringToBytes P p') \<le> 64
            \<longrightarrow> decryptWithPassphrase P (encryptWithPassphrase P salt iv x p) p' = Inr x) \<and>
         decryptWithPassphrase P (encryptWithPassphrase P salt iv x p) p' =
           (case aes_gcm_decrypt P (deriveAesKeyBytes P p' salt) iv
                   (aes_gcm_encrypt P (deriveAesKeyBytes P p salt) iv x) of
              None \<Rightarrow> Inl OperationError
            | Some y \<Rightarrow> Inr y)"
proof (intro conjI impI)
  show "decryptWithPassphrase P (encryptWithPassphrase P salt iv x p) p = Inr x"
    using aead by (simp add: decrypt_encrypt [OF wf] aead_correct_def)
next
  assume "stringToBytes P p' = stringToBytes P p @ replicate j 0 \<and>
          length (stringToBytes P p') \<le> 64"
  then show "decryptWithPassphrase P (encryptWithPassphrase P salt iv x p) p' = Inr x"
    using decrypt_padded [OF wf aead] by blast
next
  show "decryptWithPassphrase P (encryptWithPassphrase P salt iv x p) p' =
           (case aes_gcm_decrypt P (deriveAesKeyBytes P p' salt) iv
                   (aes_gcm_encrypt P (deriveAesKeyBytes P p salt) iv x) of
              None \<Rightarrow> Inl OperationError
            | Some y \<Rightarrow> Inr y)"
    by (rule decrypt_encrypt [OF wf])
qed

theorem passphrase_roundtrip_witness:
  "platform_wf demoPlatform \<and> aead_correct demoPlatform \<and>
   stringToBytes demoPlatform (''pw'' @ [CHR 0x00]) =
     stringToBytes demoPlatform ''pw'' @ replicate 1 0 \<and>
   length (stringToBytes demoPlatform (''pw'' @ [CHR 0x00])) \<le> 64 \<and>
   decryptWithPassphrase demoPlatform
     (encryptWithPassphrase demoPlatform (replicate 16 1) (replicate 12 2) [104, 105] ''pw'')
     ''pw'' = Inr [104, 105] \<and>
   decryptWithPassphrase demoPlatform
     (encryptWithPassphrase demoPlatform (replicate 16 1) (replicate 12 2) [104, 105] ''pw'')
     (''pw'' @ [CHR 0x00]) = Inr [104, 105]"
proof -
  have a: "stringToBytes demoPlatform (''pw'' @ [CHR 0x00]) =
             stringToBytes demoPlatform ''pw'' @ replicate 1 0 \<and>
           length (stringToBytes demoPlatform (''pw'' @ [CHR 0x00])) \<le> 64"
    by (simp add: stringToBytes_def demoPlatform_def)
  note r = passphrase_roundtrip [OF demo_wf demo_aead,
      of "replicate 16 1" "replicate 12 2" "[104, 105]" "''pw''" "''pw'' @ [CHR 0x00]" 1]
  note r1 = r [THEN conjunct1]
  note r2 = r [THEN conjunct2, THEN conjunct1, rule_format, OF a]
  show ?thesis
    by (intro conjI) (rule demo_wf demo_aead a [THEN conjunct1] a [THEN conjunct2] r1 r2)+
qed

text \<open>
  C8, as the claim states it (every other passphrase fails), is false: the passphrase "a"
  followed by the character U+0000 is not the passphrase "a", and decrypts what was
  encrypted under "a".
\<close>

theorem wrong_passphrase_counterexample:
  "''a'' @ [CHR 0x00] \<noteq> ''a'' \<and>
   decryptWithPassphrase demoPlatform
     (encryptWithPassphrase demoPlatform (replicate 16 1) (replicate 12 2) [104, 105] ''a'')
     (''a'' @ [CHR 0x00]) = Inr [104, 105]"
proof (rule conjI)
  show "''a'' @ [CHR 0x00] \<noteq> ''a''" by simp
next
  have "stringToBytes demoPlatform (''a'' @ [CHR 0x00]) =
          stringToBytes demoPlatform ''a'' @ replicate 1 0"
    and "length (stringToBytes demoPlatform (''a'' @ [CHR 0x00])) \<le> 64"
    by (simp_all add: stringToBytes_def demoPlatform_def)
  then show "decryptWithPassphrase demoPlatform
     (encryptWithPassphrase demoPlatform (replicate 16 1) (replicate 12 2) [104, 105] ''a'')
     (''a'' @ [CHR 0x00]) = Inr [104, 105]"
    by (rule decrypt_padded [OF demo_wf demo_aead])
qed

end
